theory Spec2Isabelle
  imports Complex_Main "HOL-Library.Sublist"
begin

section \<open>Strings of the runtime\<close>

text \<open>
  The converter of \<^verbatim>\<open>src/app/api/process-mpr/route.js\<close> works on JavaScript strings.
  A string is modelled as a \<^typ>\<open>string\<close>, one \<^typ>\<open>char\<close> per code unit, for documents
  whose code units are below 256. The white space of \<^verbatim>\<open>String.prototype.trim\<close> and of
  the regular expression class \<^verbatim>\<open>\s\<close> is then TAB, LF, VT, FF, CR, SPACE and NBSP; the
  line terminators, which \<^verbatim>\<open>.\<close> does not match, are LF and CR; \<^verbatim>\<open>\w\<close> is
  \<^verbatim>\<open>[A-Za-z0-9_]\<close>.
\<close>

definition isWhiteSpace :: "char \<Rightarrow> bool" where
  "isWhiteSpace c \<longleftrightarrow>
     c = CHR 0x09 \<or> c = CHR 0x0A \<or> c = CHR 0x0B \<or> c = CHR 0x0C \<or> c = CHR 0x0D \<or>
     c = CHR 0x20 \<or> c = CHR 0xA0"

definition isLineTerminator :: "char \<Rightarrow> bool" where
  "isLineTerminator c \<longleftrightarrow> c = CHR 0x0A \<or> c = CHR 0x0D"

definition isDigit :: "char \<Rightarrow> bool" where
  "isDigit c \<longleftrightarrow> 48 \<le> (of_char c :: nat) \<and> (of_char c :: nat) \<le> 57"

definition isWordChar :: "char \<Rightarrow> bool" where
  "isWordChar c \<longleftrightarrow>
     (let n = (of_char c :: nat)
      in (48 \<le> n \<and> n \<le> 57) \<or> (65 \<le> n \<and> n \<le> 90) \<or> (97 \<le> n \<and> n \<le> 122) \<or> n = 95)"

definition isQuote :: "char \<Rightarrow> bool" where
  "isQuote c \<longleftrightarrow> c = CHR 0x22"

definition trim :: "string \<Rightarrow> string" where
  \<comment> \<open>\<^verbatim>\<open>s.trim()\<close>\<close>
  "trim s = rev (dropWhile isWhiteSpace (rev (dropWhile isWhiteSpace s)))"

definition startsWith :: "string \<Rightarrow> string \<Rightarrow> bool" where
  \<comment> \<open>\<^verbatim>\<open>s.startsWith(p)\<close>\<close>
  "startsWith s p \<longleftrightarrow> prefix p s"

fun split_lines :: "string \<Rightarrow> string list" where
  \<comment> \<open>\<^verbatim>\<open>content.split('\n')\<close>: never empty, one more piece than there are line feeds\<close>
  "split_lines [] = [[]]"
| "split_lines (c # cs) =
     (if c = CHR 0x0A then [] # split_lines cs
      else (case split_lines cs of l # ls \<Rightarrow> (c # l) # ls | [] \<Rightarrow> [[c]]))"

definition toLowerChar :: "char \<Rightarrow> char" where
  "toLowerChar c =
     (if 65 \<le> (of_char c :: nat) \<and> (of_char c :: nat) \<le> 90
      then char_of ((of_char c :: nat) + 32) else c)"

definition toUpperChar :: "char \<Rightarrow> char" where
  "toUpperChar c =
     (if 97 \<le> (of_char c :: nat) \<and> (of_char c :: nat) \<le> 122
      then char_of ((of_char c :: nat) - 32) else c)"

definition toLowerCase :: "string \<Rightarrow> string" where
  \<comment> \<open>applied to a \<^verbatim>\<open>\w+\<close> capture only, where the ASCII letters are the only cased ones\<close>
  "toLowerCase s = map toLowerChar s"

definition toUpperCase :: "string \<Rightarrow> string" where
  "toUpperCase s = map toUpperChar s"

section \<open>Numbers\<close>

text \<open>
  A JavaScript number is NaN, an infinity or a finite value. The finite values are kept
  as the exact rationals that the decimal literals denote: the rounding to binary64 is not
  part of the model, and \<^verbatim>\<open>-0\<close> is \<^verbatim>\<open>0\<close>.
\<close>

datatype jsnum = NaN | PosInfinity | NegInfinity | Finite rat

definition isNaN :: "jsnum \<Rightarrow> bool" where
  "isNaN n \<longleftrightarrow> n = NaN"

definition isFinite :: "jsnum \<Rightarrow> bool" where
  "isFinite n \<longleftrightarrow> (case n of Finite _ \<Rightarrow> True | _ \<Rightarrow> False)"

definition negate :: "jsnum \<Rightarrow> jsnum" where
  "negate n = (case n of NaN \<Rightarrow> NaN | PosInfinity \<Rightarrow> NegInfinity
                | NegInfinity \<Rightarrow> PosInfinity | Finite r \<Rightarrow> Finite (- r))"

definition digitValue :: "char \<Rightarrow> nat" where
  "digitValue c = (of_char c :: nat) - 48"

definition decimalValue :: "string \<Rightarrow> nat" where
  "decimalValue ds = foldl (\<lambda>n c. 10 * n + digitValue c) 0 ds"

definition scale10 :: "nat \<Rightarrow> int \<Rightarrow> rat" where
  "scale10 m e = (if 0 \<le> e then of_nat m * 10 ^ nat e else of_nat m / 10 ^ nat (- e))"

definition exponentPart :: "string \<Rightarrow> int" where
  \<comment> \<open>\<^verbatim>\<open>ExponentPart\<close> at the head of the rest, when there is a complete one; else no exponent\<close>
  "exponentPart r =
     (case r of
        [] \<Rightarrow> 0
      | e # r1 \<Rightarrow>
          if e \<noteq> CHR ''e'' \<and> e \<noteq> CHR ''E'' then 0
          else (case r1 of
                  [] \<Rightarrow> 0
                | s # r2 \<Rightarrow>
                    if s = CHR ''+'' then int (decimalValue (takeWhile isDigit r2))
                    else if s = CHR ''-'' then - int (decimalValue (takeWhile isDigit r2))
                    else int (decimalValue (takeWhile isDigit r1))))"

definition strUnsignedDecimalLiteral :: "string \<Rightarrow> jsnum" where
  \<comment> \<open>the value of the longest prefix that is a \<^verbatim>\<open>StrUnsignedDecimalLiteral\<close>, NaN when
      there is none\<close>
  "strUnsignedDecimalLiteral r =
     (if startsWith r ''Infinity'' then PosInfinity
      else
        (let ip = takeWhile isDigit r; r1 = dropWhile isDigit r
         in case r1 of
              [] \<Rightarrow> if ip = [] then NaN else Finite (scale10 (decimalValue ip) 0)
            | d # r2 \<Rightarrow>
                if d = CHR ''.''
                then (let fp = takeWhile isDigit r2; r3 = dropWhile isDigit r2
                      in if ip = [] \<and> fp = [] then NaN
                         else Finite (scale10 (decimalValue (ip @ fp))
                                        (exponentPart r3 - int (length fp))))
                else if ip = [] then NaN
                else Finite (scale10 (decimalValue ip) (exponentPart r1))))"

definition parseFloat :: "string \<Rightarrow> jsnum" where
  \<comment> \<open>\<^verbatim>\<open>parseFloat(s)\<close> on a string: leading white space is skipped, then the longest
      prefix that is a \<^verbatim>\<open>StrDecimalLiteral\<close> is read\<close>
  "parseFloat s =
     (case dropWhile isWhiteSpace s of
        [] \<Rightarrow> NaN
      | c # r \<Rightarrow>
          if c = CHR ''+'' then strUnsignedDecimalLiteral r
          else if c = CHR ''-'' then negate (strUnsignedDecimalLiteral r)
          else strUnsignedDecimalLiteral (c # r))"

section \<open>The \<^verbatim>\<open>variables\<close> object\<close>

text \<open>
  \<^verbatim>\<open>parseVariables\<close> stores the table in a plain object created by \<^verbatim>\<open>{}\<close>, whose
  prototype is \<^verbatim>\<open>Object.prototype\<close>. The own properties are a map from names to
  strings. Reading \<^verbatim>\<open>variables[k]\<close> finds an own property first and an inherited
  member of \<^verbatim>\<open>Object.prototype\<close> otherwise; writing \<^verbatim>\<open>variables[k] = v\<close> with a
  string \<^verbatim>\<open>v\<close> creates or replaces an own property, except for \<^verbatim>\<open>__proto__\<close>,
  which is an inherited accessor whose setter ignores a value that is not an object.
\<close>

type_synonym vars = "string \<rightharpoonup> string"

datatype jsval = JString string | JInherited string | JUndefined

definition objectPrototypeNames :: "string list" where
  "objectPrototypeNames =
     [''constructor'', ''hasOwnProperty'', ''isPrototypeOf'', ''propertyIsEnumerable'',
      ''toLocaleString'', ''toString'', ''valueOf'', ''__proto__'',
      ''__defineGetter__'', ''__defineSetter__'', ''__lookupGetter__'', ''__lookupSetter__'']"

definition getProperty :: "vars \<Rightarrow> string \<Rightarrow> jsval" where
  \<comment> \<open>\<^verbatim>\<open>variables[k]\<close>\<close>
  "getProperty variables k =
     (case variables k of
        Some v \<Rightarrow> JString v
      | None \<Rightarrow> if k \<in> set objectPrototypeNames then JInherited k else JUndefined)"

definition setProperty :: "vars \<Rightarrow> string \<Rightarrow> string \<Rightarrow> vars" where
  \<comment> \<open>\<^verbatim>\<open>variables[k] = v\<close>\<close>
  "setProperty variables k v = (if k = ''__proto__'' then variables else variables(k \<mapsto> v))"

definition parseFloatValue :: "jsval \<Rightarrow> jsnum" where
  \<comment> \<open>\<^verbatim>\<open>parseFloat\<close> first converts its argument to a string; a function becomes
      \<^verbatim>\<open>function name() { [native code] }\<close>, \<^verbatim>\<open>Object.prototype\<close> becomes
      \<^verbatim>\<open>[object Object]\<close> and \<^verbatim>\<open>undefined\<close> becomes \<^verbatim>\<open>undefined\<close>: no number
      starts any of them\<close>
  "parseFloatValue v = (case v of JString s \<Rightarrow> parseFloat s | _ \<Rightarrow> NaN)"

definition resolve :: "vars \<Rightarrow> string \<Rightarrow> jsval" where
  \<comment> \<open>\<^verbatim>\<open>if (variables[value] !== undefined) { value = variables[value]; }\<close>\<close>
  "resolve variables value =
     (if getProperty variables value \<noteq> JUndefined then getProperty variables value
      else JString value)"

section \<open>The regular expressions\<close>

text \<open>
  The classes \<^verbatim>\<open>\w\<close>, \<^verbatim>\<open>\s\<close>, \<^verbatim>\<open>=\<close> and the quote are pairwise disjoint, so in
  \<^verbatim>\<open>(\w+)\s*=\s*"([^"]+)"\<close> every greedy repetition is followed by a character outside
  its class: giving characters back never helps, and a match from a given start takes the
  longest run each time.
\<close>

definition assignMatchAt :: "string \<Rightarrow> (string \<times> string) option" where
  \<comment> \<open>\<^verbatim>\<open>/^(\w+)\s*=\s*"([^"]+)"/\<close>: the two captures of a match at the start of the string\<close>
  "assignMatchAt s =
     (if takeWhile isWordChar s = [] then None
      else
        (case dropWhile isWhiteSpace (dropWhile isWordChar s) of
           [] \<Rightarrow> None
         | e # r1 \<Rightarrow>
             if e \<noteq> CHR ''='' then None
             else
               (case dropWhile isWhiteSpace r1 of
                  [] \<Rightarrow> None
                | q # r2 \<Rightarrow>
                    if \<not> isQuote q then None
                    else if takeWhile (\<lambda>c. \<not> isQuote c) r2 = [] then None
                    else if dropWhile (\<lambda>c. \<not> isQuote c) r2 = [] then None
                    else Some (takeWhile isWordChar s, takeWhile (\<lambda>c. \<not> isQuote c) r2))))"

fun varMatch :: "string \<Rightarrow> (string \<times> string) option" where
  \<comment> \<open>\<^verbatim>\<open>line.match(/(\w+)\s*=\s*"([^"]+)"/)\<close>: the match at the leftmost start that has one\<close>
  "varMatch [] = None"
| "varMatch (c # cs) =
     (case assignMatchAt (c # cs) of Some m \<Rightarrow> Some m | None \<Rightarrow> varMatch cs)"

definition circleKeyValueMatch :: "string \<Rightarrow> (string \<times> string) option" where
  \<comment> \<open>\<^verbatim>\<open>currentLine.match(/^(\w+)\s*=\s*"([^"]+)"/)\<close>\<close>
  "circleKeyValueMatch s = assignMatchAt s"

definition lineKeyValueMatch :: "string \<Rightarrow> (string \<times> string) option" where
  \<comment> \<open>\<^verbatim>\<open>currentLine.match(/^(\w+)\s*=\s*(.+)$/)\<close>. After \<^verbatim>\<open>=\<close> the greedy \<^verbatim>\<open>\s*\<close> takes
      all the white space and \<^verbatim>\<open>(.+)$\<close> the rest, which must be free of line terminators;
      when nothing is left, \<^verbatim>\<open>\s*\<close> gives back its last character to \<^verbatim>\<open>(.+)\<close>\<close>
  "lineKeyValueMatch s =
     (if takeWhile isWordChar s = [] then None
      else
        (case dropWhile isWhiteSpace (dropWhile isWordChar s) of
           [] \<Rightarrow> None
         | e # r1 \<Rightarrow>
             if e \<noteq> CHR ''='' then None
             else if dropWhile isWhiteSpace r1 \<noteq> [] then
               (if list_ex isLineTerminator (dropWhile isWhiteSpace r1) then None
                else Some (takeWhile isWordChar s, dropWhile isWhiteSpace r1))
             else if r1 \<noteq> [] \<and> \<not> isLineTerminator (last r1) then
               Some (takeWhile isWordChar s, [last r1])
             else None))"

definition stripQuotes :: "string \<Rightarrow> string" where
  \<comment> \<open>\<^verbatim>\<open>value.replace(/^"(.+)"$/, '$1')\<close>\<close>
  "stripQuotes value =
     (if 3 \<le> length value \<and> isQuote (hd value) \<and> isQuote (last value)
         \<and> \<not> list_ex isLineTerminator (butlast (tl value))
      then butlast (tl value) else value)"

section \<open>parseVariables\<close>

definition sectionEnd :: "string \<Rightarrow> bool" where
  \<comment> \<open>the test that ends the \<^verbatim>\<open>[001\<close> section, and a \<^verbatim>\<open><102\<close> window\<close>
  "sectionEnd line \<longleftrightarrow>
     startsWith line ''['' \<or> startsWith line ''<'' \<or> startsWith line ''$'' \<or> line = []"

function parseVariables_loop :: "string list \<Rightarrow> nat \<Rightarrow> bool \<Rightarrow> vars \<Rightarrow> vars" where
  "parseVariables_loop lines i in001Section variables =
     (if i < length lines then
        (if startsWith (trim (lines ! i)) ''[001''
         then parseVariables_loop lines (i + 1) True variables
         else if in001Section then
           (if sectionEnd (trim (lines ! i)) then variables
            else
              (case varMatch (trim (lines ! i)) of
                 Some (varName, varValue) \<Rightarrow>
                   parseVariables_loop lines (i + 1) in001Section
                     (setProperty variables varName varValue)
               | None \<Rightarrow> parseVariables_loop lines (i + 1) in001Section variables))
         else parseVariables_loop lines (i + 1) in001Section variables)
      else variables)"
  by pat_completeness auto
termination
  by (relation "measure (\<lambda>(lines, i, _, _). length lines - i)") auto

declare parseVariables_loop.simps [simp del]

definition parseVariables :: "string list \<Rightarrow> vars" where
  "parseVariables lines = parseVariables_loop lines 0 False Map.empty"

section \<open>findLine\<close>

text \<open>
  \<^verbatim>\<open>null\<close> is \<^const>\<open>None\<close>. The scan threads the \<^verbatim>\<open>params\<close> object together with the
  arguments of the calls of \<^verbatim>\<open>console.warn\<close>, in order; the \<^verbatim>\<open>console.log\<close> calls
  have no part in any result and are left out.
\<close>

record params =
  line_x :: "jsnum option"
  line_y :: "jsnum option"
  line_z :: "jsnum option"

type_synonym warning = "string \<times> jsval"

definition nonNumericWarning :: "string \<Rightarrow> jsval \<Rightarrow> warning" where
  \<comment> \<open>\<^verbatim>\<open>console.warn(`Non-numeric value for ${key.toUpperCase()}:`, value)\<close>\<close>
  "nonNumericWarning key value = (''Non-numeric value for '' @ toUpperCase key @ '':'', value)"

definition lineWindowEnd :: "string \<Rightarrow> bool" where
  "lineWindowEnd currentLine \<longleftrightarrow>
     startsWith currentLine ''$E'' \<or> startsWith currentLine ''['' \<or>
     startsWith currentLine ''<'' \<or> currentLine = []"

definition setLineParam :: "string \<Rightarrow> jsnum \<Rightarrow> params \<Rightarrow> params" where
  "setLineParam key numericValue ps =
     (if key = ''x'' then ps\<lparr>line_x := Some numericValue\<rparr>
      else if key = ''y'' then ps\<lparr>line_y := Some numericValue\<rparr>
      else if key = ''z'' then ps\<lparr>line_z := Some numericValue\<rparr>
      else ps)"

definition lineKeyValue ::
  "vars \<Rightarrow> string \<times> string \<Rightarrow> params \<times> warning list \<Rightarrow> params \<times> warning list" where
  \<comment> \<open>the body of \<^verbatim>\<open>if (keyValueMatch)\<close> in \<^verbatim>\<open>findLine\<close>\<close>
  "lineKeyValue variables keyValueMatch st =
     (let key = toLowerCase (fst keyValueMatch);
          value = resolve variables (stripQuotes (trim (snd keyValueMatch)));
          numericValue = parseFloatValue value
      in if isNaN numericValue then (fst st, snd st @ [nonNumericWarning key value])
         else (setLineParam key numericValue (fst st), snd st))"

function findLine_window ::
  "vars \<Rightarrow> string list \<Rightarrow> nat \<Rightarrow> nat \<Rightarrow> params \<times> warning list \<Rightarrow> params \<times> warning list" where
  \<comment> \<open>\<^verbatim>\<open>for (let j = i + 1; j < Math.min(i + 11, lines.length); j++)\<close>, from \<open>j\<close> on, with
      \<open>hi\<close> the bound\<close>
  "findLine_window variables lines j hi st =
     (if j < hi then
        (if lineWindowEnd (trim (lines ! j)) then st
         else
           (case lineKeyValueMatch (trim (lines ! j)) of
              Some keyValueMatch \<Rightarrow>
                findLine_window variables lines (j + 1) hi (lineKeyValue variables keyValueMatch st)
            | None \<Rightarrow> findLine_window variables lines (j + 1) hi st))
      else st)"
  by pat_completeness auto
termination
  by (relation "measure (\<lambda>(_, _, j, hi, _). hi - j)") auto

declare findLine_window.simps [simp del]

function findLine_scan ::
  "vars \<Rightarrow> string list \<Rightarrow> nat \<Rightarrow> params \<times> warning list \<Rightarrow> params \<times> warning list" where
  \<comment> \<open>\<^verbatim>\<open>for (let i = 0; i < lines.length; i++)\<close>, from \<open>i\<close> on; the \<^verbatim>\<open>break\<close> after
      the window ends the scan at the first \<^verbatim>\<open>$E\<close> line\<close>
  "findLine_scan variables lines i st =
     (if i < length lines then
        (if startsWith (trim (lines ! i)) ''$E''
         then findLine_window variables lines (i + 1) (min (i + 11) (length lines)) st
         else findLine_scan variables lines (i + 1) st)
      else st)"
  by pat_completeness auto
termination
  by (relation "measure (\<lambda>(_, lines, i, _). length lines - i)") auto

declare findLine_scan.simps [simp del]

definition initialParams :: params where
  "initialParams = \<lparr>line_x = None, line_y = None, line_z = None\<rparr>"

definition findLine_run :: "string \<Rightarrow> params \<times> warning list" where
  \<comment> \<open>\<^verbatim>\<open>findLine\<close> up to its final test: the extracted parameters and the warnings\<close>
  "findLine_run content =
     findLine_scan (parseVariables (split_lines content)) (split_lines content) 0
       (initialParams, [])"

datatype error = ParametersNotFound

definition errorMessage :: "error \<Rightarrow> string" where
  "errorMessage e = ''One or more parameters (x, y, z) were not found in the file.''"

definition nullOrNaN :: "jsnum option \<Rightarrow> bool" where
  \<comment> \<open>\<^verbatim>\<open>v === null || isNaN(v)\<close>\<close>
  "nullOrNaN v = (case v of None \<Rightarrow> True | Some n \<Rightarrow> isNaN n)"

definition findLine :: "string \<Rightarrow> error + params" where
  "findLine content =
     (let ps = fst (findLine_run content)
      in if list_ex nullOrNaN [line_x ps, line_y ps, line_z ps] then Inl ParametersNotFound
         else Inr ps)"

section \<open>findCircles\<close>

record circle =
  xa :: "jsnum option"
  ya :: "jsnum option"
  du :: "jsnum option"

definition setCircleParam :: "string \<Rightarrow> jsnum \<Rightarrow> circle \<Rightarrow> circle" where
  "setCircleParam key numericValue c =
     (if key = ''xa'' then c\<lparr>xa := Some numericValue\<rparr>
      else if key = ''ya'' then c\<lparr>ya := Some numericValue\<rparr>
      else if key = ''du'' then c\<lparr>du := Some numericValue\<rparr>
      else c)"

definition circleKeyValue ::
  "vars \<Rightarrow> string \<times> string \<Rightarrow> circle \<times> warning list \<Rightarrow> circle \<times> warning list" where
  \<comment> \<open>the body of \<^verbatim>\<open>if (keyValueMatch)\<close> in \<^verbatim>\<open>findCircles\<close>\<close>
  "circleKeyValue variables keyValueMatch st =
     (let key = toLowerCase (fst keyValueMatch);
          value = resolve variables (trim (snd keyValueMatch));
          numericValue = parseFloatValue value
      in if isNaN numericValue then (fst st, snd st @ [nonNumericWarning key value])
         else (setCircleParam key numericValue (fst st), snd st))"

function findCircles_window ::
  "vars \<Rightarrow> string list \<Rightarrow> nat \<Rightarrow> nat \<Rightarrow> circle \<times> warning list \<Rightarrow> circle \<times> warning list" where
  \<comment> \<open>\<^verbatim>\<open>for (let j = i + 1; j < Math.min(i + 16, lines.length); j++)\<close>, from \<open>j\<close> on\<close>
  "findCircles_window variables lines j hi st =
     (if j < hi then
        (if sectionEnd (trim (lines ! j)) then st
         else
           (case circleKeyValueMatch (trim (lines ! j)) of
              Some keyValueMatch \<Rightarrow>
                findCircles_window variables lines (j + 1) hi
                  (circleKeyValue variables keyValueMatch st)
            | None \<Rightarrow> findCircles_window variables lines (j + 1) hi st))
      else st)"
  by pat_completeness auto
termination
  by (relation "measure (\<lambda>(_, _, j, hi, _). hi - j)") auto

declare findCircles_window.simps [simp del]

definition initialCircle :: circle where
  "initialCircle = \<lparr>xa = None, ya = None, du = None\<rparr>"

definition allFound :: "circle \<Rightarrow> bool" where
  \<comment> \<open>\<^verbatim>\<open>Object.values(circle).every((v) => v !== null && !isNaN(v))\<close>\<close>
  "allFound c \<longleftrightarrow> list_all (\<lambda>v. \<not> nullOrNaN v) [xa c, ya c, du c]"

definition pushIfAllFound :: "circle \<Rightarrow> circle list \<Rightarrow> circle list" where
  "pushIfAllFound c circles = (if allFound c then circles @ [c] else circles)"

function findCircles_scan ::
  "vars \<Rightarrow> string list \<Rightarrow> nat \<Rightarrow> circle list \<times> warning list \<Rightarrow> circle list \<times> warning list" where
  \<comment> \<open>\<^verbatim>\<open>for (let i = 0; i < lines.length; i++)\<close>, from \<open>i\<close> on\<close>
  "findCircles_scan variables lines i st =
     (if i < length lines then
        (if startsWith (trim (lines ! i)) ''<102''
         then findCircles_scan variables lines (i + 1)
                (pushIfAllFound
                   (fst (findCircles_window variables lines (i + 1) (min (i + 16) (length lines))
                           (initialCircle, snd st)))
                   (fst st),
                 snd (findCircles_window variables lines (i + 1) (min (i + 16) (length lines))
                        (initialCircle, snd st)))
         else findCircles_scan variables lines (i + 1) st)
      else st)"
  by pat_completeness auto
termination
  by (relation "measure (\<lambda>(_, lines, i, _). length lines - i)") auto

declare findCircles_scan.simps [simp del]

definition findCircles_run :: "string \<Rightarrow> circle list \<times> warning list" where
  "findCircles_run content =
     findCircles_scan (parseVariables (split_lines content)) (split_lines content) 0 ([], [])"

definition findCircles :: "string \<Rightarrow> circle list" where
  "findCircles content = fst (findCircles_run content)"

section \<open>createDxf\<close>

text \<open>
  The text of a number in a template literal is the runtime's \<^verbatim>\<open>Number::toString\<close>, a
  function of the binary64 value; it is the parameter \<open>str\<close>. A \<^verbatim>\<open>null\<close> field would
  print as \<^verbatim>\<open>null\<close> and divide as \<^verbatim>\<open>0\<close>.
\<close>

definition template :: "(jsnum \<Rightarrow> string) \<Rightarrow> jsnum option \<Rightarrow> string" where
  \<comment> \<open>\<^verbatim>\<open>${v}\<close>\<close>
  "template str v = (case v of None \<Rightarrow> ''null'' | Some n \<Rightarrow> str n)"

definition half :: "jsnum option \<Rightarrow> jsnum option" where
  \<comment> \<open>\<^verbatim>\<open>v / 2.0\<close>\<close>
  "half v =
     (case v of
        None \<Rightarrow> Some (Finite 0)
      | Some (Finite r) \<Rightarrow> Some (Finite (r / 2))
      | Some n \<Rightarrow> Some n)"

fun createDxf_circles :: "(jsnum \<Rightarrow> string) \<Rightarrow> string \<Rightarrow> circle list \<Rightarrow> string" where
  \<comment> \<open>\<^verbatim>\<open>for (const circle of circles)\<close>, appending to \<^verbatim>\<open>dxf\<close>\<close>
  "createDxf_circles str dxf [] = dxf"
| "createDxf_circles str dxf (c # circles) =
     createDxf_circles str
       (dxf @ ''0\<newline>CIRCLE\<newline>''
            @ ''8\<newline>0\<newline>''
            @ ''10\<newline>'' @ template str (xa c) @ ''\<newline>''
            @ ''20\<newline>'' @ template str (ya c) @ ''\<newline>''
            @ ''30\<newline>0.0\<newline>''
            @ ''40\<newline>'' @ template str (half (du c)) @ ''\<newline>'')
       circles"

definition createDxf :: "(jsnum \<Rightarrow> string) \<Rightarrow> params \<Rightarrow> circle list \<Rightarrow> string" where
  "createDxf str line circles =
     createDxf_circles str
       ([] @ ''0\<newline>SECTION\<newline>2\<newline>HEADER\<newline>0\<newline>ENDSEC\<newline>''
           @ ''0\<newline>SECTION\<newline>2\<newline>ENTITIES\<newline>''
           @ ''0\<newline>LINE\<newline>''
           @ ''8\<newline>0\<newline>''
           @ ''10\<newline>0.0\<newline>''
           @ ''20\<newline>0.0\<newline>''
           @ ''30\<newline>'' @ template str (line_z line) @ ''\<newline>''
           @ ''11\<newline>'' @ template str (line_x line) @ ''\<newline>''
           @ ''21\<newline>'' @ template str (line_y line) @ ''\<newline>''
           @ ''31\<newline>'' @ template str (line_z line) @ ''\<newline>'')
       circles
     @ ''0\<newline>ENDSEC\<newline>''
     @ ''0\<newline>EOF''"

section \<open>POST\<close>

datatype response = DxfAttachment string | JsonError nat string

definition POST :: "(jsnum \<Rightarrow> string) \<Rightarrow> string option \<Rightarrow> response" where
  \<comment> \<open>the handler from the uploaded file's text on; \<^const>\<open>None\<close> is a request without a file\<close>
  "POST str file =
     (case file of
        None \<Rightarrow> JsonError 400 ''No file uploaded''
      | Some mprContent \<Rightarrow>
          (case findLine mprContent of
             Inl e \<Rightarrow> JsonError 500 (errorMessage e)
           | Inr line \<Rightarrow> DxfAttachment (createDxf str line (findCircles mprContent))))"

section \<open>The windows as lists\<close>

text \<open>
  The specification speaks of sections and lookahead windows. These definitions follow its
  words: the window of a marker is the run of at most \<open>n\<close> lines after it, cut before the
  first line that ends it; the \<^verbatim>\<open>$E\<close> window of a document is the window of its first
  \<^verbatim>\<open>$E\<close> line, and is empty when there is none. They are compared below with the index
  loops of the source.
\<close>

definition windowAfter :: "nat \<Rightarrow> (string \<Rightarrow> bool) \<Rightarrow> string list \<Rightarrow> string list" where
  "windowAfter n ends rest = takeWhile (\<lambda>l. \<not> ends (trim l)) (take n rest)"

definition lineWindow :: "string list \<Rightarrow> string list" where
  "lineWindow lines =
     (case dropWhile (\<lambda>l. \<not> startsWith (trim l) ''$E'') lines of
        [] \<Rightarrow> []
      | marker # rest \<Rightarrow> windowAfter 10 lineWindowEnd rest)"

definition circleWindow :: "string list \<Rightarrow> nat \<Rightarrow> string list" where
  \<comment> \<open>the window of the marker at index \<open>i\<close>\<close>
  "circleWindow lines i = windowAfter 15 sectionEnd (drop (Suc i) lines)"

definition markerIndices :: "string list \<Rightarrow> nat list" where
  \<comment> \<open>the indices of the \<^verbatim>\<open><102\<close> lines, ascending\<close>
  "markerIndices lines =
     filter (\<lambda>i. startsWith (trim (lines ! i)) ''<102'') [0..<length lines]"

definition lineStep :: "vars \<Rightarrow> params \<times> warning list \<Rightarrow> string \<Rightarrow> params \<times> warning list" where
  \<comment> \<open>what one line of the window does to \<^verbatim>\<open>params\<close>\<close>
  "lineStep variables st l =
     (case lineKeyValueMatch (trim l) of
        Some keyValueMatch \<Rightarrow> lineKeyValue variables keyValueMatch st
      | None \<Rightarrow> st)"

definition circleStep :: "vars \<Rightarrow> circle \<times> warning list \<Rightarrow> string \<Rightarrow> circle \<times> warning list" where
  "circleStep variables st l =
     (case circleKeyValueMatch (trim l) of
        Some keyValueMatch \<Rightarrow> circleKeyValue variables keyValueMatch st
      | None \<Rightarrow> st)"

definition circleOf :: "vars \<Rightarrow> string list \<Rightarrow> circle" where
  \<comment> \<open>the circle that a window describes\<close>
  "circleOf variables w = fst (foldl (circleStep variables) (initialCircle, []) w)"

definition lineNumber :: "vars \<Rightarrow> string \<Rightarrow> (string \<times> jsnum) option" where
  \<comment> \<open>the lower-cased key and the number of a \<^verbatim>\<open>KEY=VALUE\<close> line of the \<^verbatim>\<open>$E\<close> window
      whose value, after quote stripping and substitution, parses to a number\<close>
  "lineNumber variables l =
     (case lineKeyValueMatch (trim l) of
        None \<Rightarrow> None
      | Some m \<Rightarrow>
          if isNaN (parseFloatValue (resolve variables (stripQuotes (trim (snd m))))) then None
          else Some (toLowerCase (fst m),
                     parseFloatValue (resolve variables (stripQuotes (trim (snd m))))))"

definition circleNumber :: "vars \<Rightarrow> string \<Rightarrow> (string \<times> jsnum) option" where
  \<comment> \<open>the same for a \<^verbatim>\<open>KEY="VALUE"\<close> line of a \<^verbatim>\<open><102\<close> window\<close>
  "circleNumber variables l =
     (case circleKeyValueMatch (trim l) of
        None \<Rightarrow> None
      | Some m \<Rightarrow>
          if isNaN (parseFloatValue (resolve variables (trim (snd m)))) then None
          else Some (toLowerCase (fst m), parseFloatValue (resolve variables (trim (snd m)))))"

fun assigned :: "(string \<Rightarrow> (string \<times> jsnum) option) \<Rightarrow> string \<Rightarrow> string list \<Rightarrow> jsnum list" where
  \<comment> \<open>the numbers that the lines of a window give to a key, in the order of the lines\<close>
  "assigned number key [] = []"
| "assigned number key (l # w) =
     (case number l of
        None \<Rightarrow> assigned number key w
      | Some kv \<Rightarrow> if fst kv = key then snd kv # assigned number key w
                 else assigned number key w)"

definition lastOption :: "'a list \<Rightarrow> 'a option" where
  "lastOption xs = (if xs = [] then None else Some (last xs))"

section \<open>The variables section as a list\<close>

text \<open>
  The variables section of the specification: the lines that follow the first \<^verbatim>\<open>[001\<close>
  header, up to the line that ends the section, and the assignments they make.
\<close>

definition variablesSection :: "string list \<Rightarrow> string list" where
  \<comment> \<open>the lines after the first \<^verbatim>\<open>[001\<close> header, up to the first line that ends the section;
      a repeated header does not end it\<close>
  "variablesSection lines =
     (case dropWhile (\<lambda>l. \<not> startsWith (trim l) ''[001'') lines of
        [] \<Rightarrow> []
      | header # rest \<Rightarrow>
          takeWhile (\<lambda>l. startsWith (trim l) ''[001'' \<or> \<not> sectionEnd (trim l)) rest)"

definition assignment :: "string \<Rightarrow> (string \<times> string) option" where
  \<comment> \<open>the name and the value that a line of the section assigns\<close>
  "assignment l = (if startsWith (trim l) ''[001'' then None else varMatch (trim l))"

fun assignedValues :: "string \<Rightarrow> string list \<Rightarrow> string list" where
  \<comment> \<open>the values that the lines assign to a name, in the order of the lines\<close>
  "assignedValues name [] = []"
| "assignedValues name (l # ls) =
     (case assignment l of
        None \<Rightarrow> assignedValues name ls
      | Some nv \<Rightarrow> if fst nv = name then snd nv # assignedValues name ls
                 else assignedValues name ls)"

fun parseVariables_list :: "string list \<Rightarrow> bool \<Rightarrow> vars \<Rightarrow> vars" where
  \<comment> \<open>the loop of \<^verbatim>\<open>parseVariables\<close> on the lines that are left\<close>
  "parseVariables_list [] in001Section variables = variables"
| "parseVariables_list (l # ls) in001Section variables =
     (if startsWith (trim l) ''[001'' then parseVariables_list ls True variables
      else if in001Section then
        (if sectionEnd (trim l) then variables
         else parseVariables_list ls in001Section
                (case varMatch (trim l) of
                   Some (varName, varValue) \<Rightarrow> setProperty variables varName varValue
                 | None \<Rightarrow> variables))
      else parseVariables_list ls in001Section variables)"

section \<open>The DXF skeleton\<close>

text \<open>
  The skeleton as the specification draws it: a DXF text is a sequence of groups, each a
  group code on one line and its value on the next.
\<close>

type_synonym group = "string \<times> string"

fun joinLines :: "string list \<Rightarrow> string" where
  "joinLines [] = []"
| "joinLines [l] = l"
| "joinLines (l # m # ls) = l @ ''\<newline>'' @ joinLines (m # ls)"

definition renderGroups :: "group list \<Rightarrow> string" where
  "renderGroups gs = joinLines (concat (map (\<lambda>g. [fst g, snd g]) gs))"

definition lineEntity :: "(jsnum \<Rightarrow> string) \<Rightarrow> params \<Rightarrow> group list" where
  \<comment> \<open>\<^verbatim>\<open>LINE\<close> on layer 0 from \<open>(0.0, 0.0, z)\<close> to \<open>(x, y, z)\<close>\<close>
  "lineEntity str line =
     [(''0'', ''LINE''), (''8'', ''0''),
      (''10'', ''0.0''), (''20'', ''0.0''), (''30'', template str (line_z line)),
      (''11'', template str (line_x line)), (''21'', template str (line_y line)),
      (''31'', template str (line_z line))]"

definition circleEntity :: "(jsnum \<Rightarrow> string) \<Rightarrow> circle \<Rightarrow> group list" where
  \<comment> \<open>\<^verbatim>\<open>CIRCLE\<close> on layer 0 centred at \<open>(xa, ya, 0.0)\<close> with radius \<open>du / 2\<close>\<close>
  "circleEntity str c =
     [(''0'', ''CIRCLE''), (''8'', ''0''),
      (''10'', template str (xa c)), (''20'', template str (ya c)), (''30'', ''0.0''),
      (''40'', template str (half (du c)))]"

definition dxfGroups :: "(jsnum \<Rightarrow> string) \<Rightarrow> params \<Rightarrow> circle list \<Rightarrow> group list" where
  "dxfGroups str line circles =
     [(''0'', ''SECTION''), (''2'', ''HEADER''), (''0'', ''ENDSEC''),
      (''0'', ''SECTION''), (''2'', ''ENTITIES'')]
     @ lineEntity str line
     @ concat (map (circleEntity str) circles)
     @ [(''0'', ''ENDSEC''), (''0'', ''EOF'')]"

definition groupCodes :: "string list" where
  "groupCodes = [''0'', ''2'', ''8'', ''10'', ''11'', ''20'', ''21'', ''30'', ''31'', ''40'']"

section \<open>Properties\<close>

subsection \<open>The loops of findLine\<close>

lemma take_min_length: "take (min n (length xs)) xs = take n xs"
  by (cases "n \<le> length xs") (simp_all add: min_def)

lemma findLine_window_foldl:
  "hi \<le> length lines \<Longrightarrow>
   findLine_window variables lines j hi st =
     foldl (lineStep variables) st
       (takeWhile (\<lambda>l. \<not> lineWindowEnd (trim l)) (take (hi - j) (drop j lines)))"
proof (induction variables lines j hi st rule: findLine_window.induct)
  case (1 variables lines j hi st)
  show ?case
  proof (cases "j < hi")
    case False
    then show ?thesis by (subst findLine_window.simps) simp
  next
    case True
    with "1.prems" have jlen: "j < length lines" by simp
    from True obtain d where d: "hi - j = Suc d" "hi - (j + 1) = d"
      by (cases "hi - j") auto
    have split: "take (hi - j) (drop j lines) = lines ! j # take (hi - (j + 1)) (drop (j + 1) lines)"
      using jlen d by (simp add: Cons_nth_drop_Suc [symmetric])
    show ?thesis
    proof (cases "lineWindowEnd (trim (lines ! j))")
      case True
      with \<open>j < hi\<close> split show ?thesis by (subst findLine_window.simps) simp
    next
      case notEnd: False
      show ?thesis
      proof (cases "lineKeyValueMatch (trim (lines ! j))")
        case None
        then have "lineStep variables st (lines ! j) = st"
          by (simp add: lineStep_def)
        with None "1.IH"(1) [OF \<open>j < hi\<close> notEnd None "1.prems"] \<open>j < hi\<close> notEnd split
        show ?thesis by (subst findLine_window.simps) simp
      next
        case (Some m)
        then have "lineStep variables st (lines ! j) = lineKeyValue variables m st"
          by (simp add: lineStep_def)
        with Some "1.IH"(2) [OF \<open>j < hi\<close> notEnd Some "1.prems"] \<open>j < hi\<close> notEnd split
        show ?thesis by (subst findLine_window.simps) simp
      qed
    qed
  qed
qed

lemma findLine_scan_foldl:
  "findLine_scan variables lines i st =
     foldl (lineStep variables) st (lineWindow (drop i lines))"
proof (induction variables lines i st rule: findLine_scan.induct)
  case (1 variables lines i st)
  show ?case
  proof (cases "i < length lines")
    case False
    then show ?thesis by (subst findLine_scan.simps) (simp add: lineWindow_def)
  next
    case True
    then have split: "drop i lines = lines ! i # drop (Suc i) lines"
      by (simp add: Cons_nth_drop_Suc)
    show ?thesis
    proof (cases "startsWith (trim (lines ! i)) ''$E''")
      case False
      with "1.IH" [OF True False] True split show ?thesis
        by (subst findLine_scan.simps) (simp add: lineWindow_def)
    next
      case isE: True
      have "min (i + 11) (length lines) - (i + 1) = min 10 (length (drop (i + 1) lines))"
        using True by simp
      then have "take (min (i + 11) (length lines) - (i + 1)) (drop (i + 1) lines)
                 = take 10 (drop (i + 1) lines)"
        by (simp only: take_min_length)
      with isE True split show ?thesis
        by (subst findLine_scan.simps)
           (simp add: findLine_window_foldl lineWindow_def windowAfter_def)
    qed
  qed
qed

lemma findLine_run_foldl:
  "findLine_run content =
     foldl (lineStep (parseVariables (split_lines content))) (initialParams, [])
       (lineWindow (split_lines content))"
  by (simp add: findLine_run_def findLine_scan_foldl)
subsection \<open>The loop of parseVariables\<close>

lemma parseVariables_loop_list:
  "parseVariables_loop lines i in001Section variables =
     parseVariables_list (drop i lines) in001Section variables"
proof (induction lines i in001Section variables rule: parseVariables_loop.induct)
  case (1 lines i in001Section variables)
  show ?case
  proof (cases "i < length lines")
    case False
    then show ?thesis by (subst parseVariables_loop.simps) simp
  next
    case True
    then have split: "drop i lines = lines ! i # drop (i + 1) lines"
      by (simp add: Cons_nth_drop_Suc)
    show ?thesis
    proof (cases "startsWith (trim (lines ! i)) ''[001''")
      case header: True
      show ?thesis
        using "1.IH"(1) [OF True header] True header
        by (subst parseVariables_loop.simps, subst split) simp
    next
      case noHeader: False
      show ?thesis
      proof (cases in001Section)
        case outside: False
        show ?thesis
          using "1.IH"(4) [OF True noHeader outside] True noHeader outside
          by (subst parseVariables_loop.simps, subst split) simp
      next
        case inside: True
        show ?thesis
        proof (cases "sectionEnd (trim (lines ! i))")
          case True
          with \<open>i < length lines\<close> noHeader inside show ?thesis
            by (subst parseVariables_loop.simps, subst split) simp
        next
          case noEnd: False
          show ?thesis
          proof (cases "varMatch (trim (lines ! i))")
            case None
            show ?thesis
              using "1.IH"(2) [OF True noHeader inside noEnd None] True noHeader inside noEnd None
              by (subst parseVariables_loop.simps, subst split) simp
          next
            case (Some m)
            obtain varName varValue where m: "m = (varName, varValue)" by (cases m)
            show ?thesis
              using "1.IH"(3) [OF True noHeader inside noEnd Some [unfolded m] refl]
                True noHeader inside noEnd Some m
              by (subst parseVariables_loop.simps, subst split) simp
          qed
        qed
      qed
    qed
  qed
qed

lemma parseVariables_as_list: "parseVariables lines = parseVariables_list lines False Map.empty"
  by (simp add: parseVariables_def parseVariables_loop_list)

subsection \<open>The loops of findCircles\<close>

lemma findCircles_window_foldl:
  "hi \<le> length lines \<Longrightarrow>
   findCircles_window variables lines j hi st =
     foldl (circleStep variables) st
       (takeWhile (\<lambda>l. \<not> sectionEnd (trim l)) (take (hi - j) (drop j lines)))"
proof (induction variables lines j hi st rule: findCircles_window.induct)
  case (1 variables lines j hi st)
  show ?case
  proof (cases "j < hi")
    case False
    then show ?thesis by (subst findCircles_window.simps) simp
  next
    case True
    with "1.prems" have jlen: "j < length lines" by simp
    from True obtain d where d: "hi - j = Suc d" "hi - (j + 1) = d"
      by (cases "hi - j") auto
    have split: "take (hi - j) (drop j lines) = lines ! j # take (hi - (j + 1)) (drop (j + 1) lines)"
      using jlen d by (simp add: Cons_nth_drop_Suc [symmetric])
    show ?thesis
    proof (cases "sectionEnd (trim (lines ! j))")
      case True
      with \<open>j < hi\<close> split show ?thesis by (subst findCircles_window.simps) simp
    next
      case notEnd: False
      show ?thesis
      proof (cases "circleKeyValueMatch (trim (lines ! j))")
        case None
        then have "circleStep variables st (lines ! j) = st"
          by (simp add: circleStep_def)
        with None "1.IH"(1) [OF \<open>j < hi\<close> notEnd None "1.prems"] \<open>j < hi\<close> notEnd split
        show ?thesis by (subst findCircles_window.simps) simp
      next
        case (Some m)
        then have "circleStep variables st (lines ! j) = circleKeyValue variables m st"
          by (simp add: circleStep_def)
        with Some "1.IH"(2) [OF \<open>j < hi\<close> notEnd Some "1.prems"] \<open>j < hi\<close> notEnd split
        show ?thesis by (subst findCircles_window.simps) simp
      qed
    qed
  qed
qed

lemma findCircles_window_circleWindow:
  "i < length lines \<Longrightarrow>
   findCircles_window variables lines (Suc i) (min (i + 16) (length lines)) st =
     foldl (circleStep variables) st (circleWindow lines i)"
proof -
  assume i: "i < length lines"
  have "min (i + 16) (length lines) - Suc i = min 15 (length (drop (Suc i) lines))"
    using i by simp
  then have "take (min (i + 16) (length lines) - Suc i) (drop (Suc i) lines)
             = take 15 (drop (Suc i) lines)"
    by (simp only: take_min_length)
  then show ?thesis
    by (simp add: findCircles_window_foldl circleWindow_def windowAfter_def)
qed

lemma circleStep_warnings:
  "circleStep variables (c, ws) l =
     (fst (circleStep variables (c, []) l), ws @ snd (circleStep variables (c, []) l))"
  by (simp add: circleStep_def circleKeyValue_def Let_def split: option.splits)

lemma foldl_circleStep_warnings:
  "foldl (circleStep variables) (c, ws) w =
     (fst (foldl (circleStep variables) (c, []) w),
      ws @ snd (foldl (circleStep variables) (c, []) w))"
proof (induction w arbitrary: c ws)
  case Nil
  then show ?case by simp
next
  case (Cons l w)
  obtain c' ws' where step: "circleStep variables (c, []) l = (c', ws')"
    by (cases "circleStep variables (c, []) l")
  have "circleStep variables (c, ws) l = (c', ws @ ws')"
    using circleStep_warnings [of variables c ws l] step by simp
  then show ?case
    using step Cons.IH [of c' "ws @ ws'"] Cons.IH [of c' ws'] by simp
qed

lemma fst_foldl_circleStep:
  "fst (foldl (circleStep variables) (initialCircle, ws) w) = circleOf variables w"
  using foldl_circleStep_warnings [of variables initialCircle ws w] by (simp add: circleOf_def)

lemma findCircles_scan_markers:
  "fst (findCircles_scan variables lines i st) =
     fst st @ filter allFound
       (map (\<lambda>k. circleOf variables (circleWindow lines k))
          (filter (\<lambda>k. startsWith (trim (lines ! k)) ''<102'') [i..<length lines]))"
proof (induction variables lines i st rule: findCircles_scan.induct)
  case (1 variables lines i st)
  show ?case
  proof (cases "i < length lines")
    case False
    then show ?thesis by (subst findCircles_scan.simps) simp
  next
    case True
    then have upt: "[i..<length lines] = i # [i + 1..<length lines]"
      by (simp add: upt_conv_Cons)
    show ?thesis
    proof (cases "startsWith (trim (lines ! i)) ''<102''")
      case False
      show ?thesis
        using "1.IH"(2) [OF True False] True False
        by (subst findCircles_scan.simps, subst upt) simp
    next
      case marker: True
      show ?thesis
        using "1.IH"(1) [OF True marker] True marker
        by (subst findCircles_scan.simps, subst upt)
           (simp add: findCircles_window_circleWindow fst_foldl_circleStep pushIfAllFound_def)
    qed
  qed
qed

lemma findCircles_markers:
  "findCircles content =
     filter allFound
       (map (\<lambda>k. circleOf (parseVariables (split_lines content))
                   (circleWindow (split_lines content) k))
          (markerIndices (split_lines content)))"
  by (simp add: findCircles_def findCircles_run_def findCircles_scan_markers markerIndices_def)
subsection \<open>The shape of a window\<close>

lemma windowAfter_of_parts:
  "list_all (\<lambda>l. \<not> ends (trim l)) w \<Longrightarrow> length w \<le> n \<Longrightarrow>
   length w = n \<or> rest = [] \<or> ends (trim (hd rest)) \<Longrightarrow>
   windowAfter n ends (w @ rest) = w"
proof -
  assume w: "list_all (\<lambda>l. \<not> ends (trim l)) w" and len: "length w \<le> n"
    and stop: "length w = n \<or> rest = [] \<or> ends (trim (hd rest))"
  have all: "takeWhile (\<lambda>l. \<not> ends (trim l)) w = w"
    using w by (simp add: list_all_iff)
  from stop consider "length w = n" | "rest = []" | "rest \<noteq> []" "length w < n" "ends (trim (hd rest))"
    using len by (cases "length w = n") auto
  then show ?thesis
  proof cases
    case 1
    then show ?thesis by (simp add: windowAfter_def all)
  next
    case 2
    with len show ?thesis by (simp add: windowAfter_def all)
  next
    case 3
    then obtain r rs where rest: "rest = r # rs" by (cases rest) auto
    from 3 obtain d where d: "n - length w = Suc d" by (cases "n - length w") auto
    have "take n (w @ rest) = w @ r # take d rs"
      using len d by (simp add: rest)
    with 3 rest w show ?thesis
      by (simp add: windowAfter_def list_all_iff takeWhile_append2)
  qed
qed

lemma lineWindow_of_parts:
  "list_all (\<lambda>l. \<not> startsWith (trim l) ''$E'') pre \<Longrightarrow> startsWith (trim marker) ''$E'' \<Longrightarrow>
   list_all (\<lambda>l. \<not> lineWindowEnd (trim l)) w \<Longrightarrow> length w \<le> 10 \<Longrightarrow>
   length w = 10 \<or> rest = [] \<or> lineWindowEnd (trim (hd rest)) \<Longrightarrow>
   lineWindow (pre @ marker # w @ rest) = w"
proof -
  assume pre: "list_all (\<lambda>l. \<not> startsWith (trim l) ''$E'') pre"
    and marker: "startsWith (trim marker) ''$E''"
    and w: "list_all (\<lambda>l. \<not> lineWindowEnd (trim l)) w" "length w \<le> 10"
      "length w = 10 \<or> rest = [] \<or> lineWindowEnd (trim (hd rest))"
  have "dropWhile (\<lambda>l. \<not> startsWith (trim l) ''$E'') (pre @ marker # w @ rest) = marker # w @ rest"
    using pre marker by (simp add: list_all_iff dropWhile_append2)
  then have "lineWindow (pre @ marker # w @ rest) = windowAfter 10 lineWindowEnd (w @ rest)"
    unfolding lineWindow_def by (simp only: list.case)
  with w show ?thesis
    by (simp only: windowAfter_of_parts)
qed

subsection \<open>Rendering\<close>

lemma joinLines_Cons: "ls \<noteq> [] \<Longrightarrow> joinLines (l # ls) = l @ ''\<newline>'' @ joinLines ls"
  by (cases ls) simp_all

lemma joinLines_append:
  "ms \<noteq> [] \<Longrightarrow> joinLines (ls @ ms) = concat (map (\<lambda>l. l @ ''\<newline>'') ls) @ joinLines ms"
  by (induction ls) (simp_all add: joinLines_Cons)

lemma createDxf_circles_append:
  "createDxf_circles str dxf circles =
     dxf @ concat (map (\<lambda>c. concat (map (\<lambda>g. fst g @ ''\<newline>'' @ snd g @ ''\<newline>'')
                                   (circleEntity str c))) circles)"
  by (induction circles arbitrary: dxf) (simp_all add: circleEntity_def)

lemma renderGroups_append:
  "hs \<noteq> [] \<Longrightarrow>
   renderGroups (gs @ hs) =
     concat (map (\<lambda>g. fst g @ ''\<newline>'' @ snd g @ ''\<newline>'') gs) @ renderGroups hs"
proof (induction gs)
  case Nil
  then show ?case by simp
next
  case (Cons g gs)
  from \<open>hs \<noteq> []\<close> have ne: "concat (map (\<lambda>g. [fst g, snd g]) (gs @ hs)) \<noteq> []"
    by (cases hs) simp_all
  have "renderGroups ((g # gs) @ hs) =
          fst g @ ''\<newline>'' @ snd g @ ''\<newline>'' @ renderGroups (gs @ hs)"
    using ne by (simp add: renderGroups_def joinLines_Cons)
  with Cons show ?case by simp
qed

lemma concat_map_concat:
  "concat (map f (concat xss)) = concat (map (\<lambda>xs. concat (map f xs)) xss)"
  by (induction xss) simp_all

lemma createDxf_renderGroups:
  "createDxf str line circles = renderGroups (dxfGroups str line circles)"
proof -
  have tail: "renderGroups [(''0'', ''ENDSEC''), (''0'', ''EOF'')] = ''0\<newline>ENDSEC\<newline>0\<newline>EOF''"
    by (simp add: renderGroups_def)
  have "renderGroups (dxfGroups str line circles) =
          concat (map (\<lambda>g. fst g @ ''\<newline>'' @ snd g @ ''\<newline>'')
                    ([(''0'', ''SECTION''), (''2'', ''HEADER''), (''0'', ''ENDSEC''),
                      (''0'', ''SECTION''), (''2'', ''ENTITIES'')]
                     @ lineEntity str line @ concat (map (circleEntity str) circles)))
          @ renderGroups [(''0'', ''ENDSEC''), (''0'', ''EOF'')]"
    using renderGroups_append
            [of "[(''0'', ''ENDSEC''), (''0'', ''EOF'')]"
                "[(''0'', ''SECTION''), (''2'', ''HEADER''), (''0'', ''ENDSEC''),
                  (''0'', ''SECTION''), (''2'', ''ENTITIES'')]
                 @ lineEntity str line @ concat (map (circleEntity str) circles)"]
    by (simp add: dxfGroups_def)
  then show ?thesis
    by (simp add: tail createDxf_def createDxf_circles_append lineEntity_def concat_map_concat
          comp_def)
qed

lemma dxfGroups_codes: "set (map fst (dxfGroups str line circles)) \<subseteq> set groupCodes"
  by (auto simp add: dxfGroups_def lineEntity_def circleEntity_def groupCodes_def)
subsection \<open>What a window extracts\<close>

lemma assigned_append:
  "assigned number key (u @ w) = assigned number key u @ assigned number key w"
  by (induction u) (simp_all split: option.splits)

lemma lineNumber_not_NaN: "lineNumber variables l = Some kv \<Longrightarrow> snd kv \<noteq> NaN"
  by (auto simp add: lineNumber_def isNaN_def split: option.splits if_splits)

lemma circleNumber_not_NaN: "circleNumber variables l = Some kv \<Longrightarrow> snd kv \<noteq> NaN"
  by (auto simp add: circleNumber_def isNaN_def split: option.splits if_splits)

lemma assigned_lineNumber_not_NaN: "NaN \<notin> set (assigned (lineNumber variables) key w)"
  by (induction w) (auto split: option.splits dest: lineNumber_not_NaN)

lemma assigned_circleNumber_not_NaN: "NaN \<notin> set (assigned (circleNumber variables) key w)"
  by (induction w) (auto split: option.splits dest: circleNumber_not_NaN)

lemma fst_lineStep:
  "fst (lineStep variables st l) =
     (case lineNumber variables l of
        None \<Rightarrow> fst st
      | Some kv \<Rightarrow> setLineParam (fst kv) (snd kv) (fst st))"
  by (simp add: lineStep_def lineNumber_def lineKeyValue_def Let_def split: option.splits)

lemma fst_circleStep:
  "fst (circleStep variables st l) =
     (case circleNumber variables l of
        None \<Rightarrow> fst st
      | Some kv \<Rightarrow> setCircleParam (fst kv) (snd kv) (fst st))"
  by (simp add: circleStep_def circleNumber_def circleKeyValue_def Let_def split: option.splits)

lemma line_x_foldl:
  "line_x (fst (foldl (lineStep variables) st w)) =
     (case lastOption (assigned (lineNumber variables) ''x'' w) of
        None \<Rightarrow> line_x (fst st) | Some n \<Rightarrow> Some n)"
proof (induction w rule: rev_induct)
  case Nil
  then show ?case by (simp add: lastOption_def)
next
  case (snoc l w)
  then show ?case
    by (cases "lineNumber variables l")
       (auto simp add: fst_lineStep assigned_append lastOption_def setLineParam_def)
qed

lemma line_y_foldl:
  "line_y (fst (foldl (lineStep variables) st w)) =
     (case lastOption (assigned (lineNumber variables) ''y'' w) of
        None \<Rightarrow> line_y (fst st) | Some n \<Rightarrow> Some n)"
proof (induction w rule: rev_induct)
  case Nil
  then show ?case by (simp add: lastOption_def)
next
  case (snoc l w)
  then show ?case
    by (cases "lineNumber variables l")
       (auto simp add: fst_lineStep assigned_append lastOption_def setLineParam_def)
qed

lemma line_z_foldl:
  "line_z (fst (foldl (lineStep variables) st w)) =
     (case lastOption (assigned (lineNumber variables) ''z'' w) of
        None \<Rightarrow> line_z (fst st) | Some n \<Rightarrow> Some n)"
proof (induction w rule: rev_induct)
  case Nil
  then show ?case by (simp add: lastOption_def)
next
  case (snoc l w)
  then show ?case
    by (cases "lineNumber variables l")
       (auto simp add: fst_lineStep assigned_append lastOption_def setLineParam_def)
qed

lemma xa_foldl:
  "xa (fst (foldl (circleStep variables) st w)) =
     (case lastOption (assigned (circleNumber variables) ''xa'' w) of
        None \<Rightarrow> xa (fst st) | Some n \<Rightarrow> Some n)"
proof (induction w rule: rev_induct)
  case Nil
  then show ?case by (simp add: lastOption_def)
next
  case (snoc l w)
  then show ?case
    by (cases "circleNumber variables l")
       (auto simp add: fst_circleStep assigned_append lastOption_def setCircleParam_def)
qed

lemma ya_foldl:
  "ya (fst (foldl (circleStep variables) st w)) =
     (case lastOption (assigned (circleNumber variables) ''ya'' w) of
        None \<Rightarrow> ya (fst st) | Some n \<Rightarrow> Some n)"
proof (induction w rule: rev_induct)
  case Nil
  then show ?case by (simp add: lastOption_def)
next
  case (snoc l w)
  then show ?case
    by (cases "circleNumber variables l")
       (auto simp add: fst_circleStep assigned_append lastOption_def setCircleParam_def)
qed

lemma du_foldl:
  "du (fst (foldl (circleStep variables) st w)) =
     (case lastOption (assigned (circleNumber variables) ''du'' w) of
        None \<Rightarrow> du (fst st) | Some n \<Rightarrow> Some n)"
proof (induction w rule: rev_induct)
  case Nil
  then show ?case by (simp add: lastOption_def)
next
  case (snoc l w)
  then show ?case
    by (cases "circleNumber variables l")
       (auto simp add: fst_circleStep assigned_append lastOption_def setCircleParam_def)
qed

lemma findLine_run_params:
  "fst (findLine_run content) =
     \<lparr>line_x = lastOption (assigned (lineNumber (parseVariables (split_lines content))) ''x''
                            (lineWindow (split_lines content))),
      line_y = lastOption (assigned (lineNumber (parseVariables (split_lines content))) ''y''
                            (lineWindow (split_lines content))),
      line_z = lastOption (assigned (lineNumber (parseVariables (split_lines content))) ''z''
                            (lineWindow (split_lines content)))\<rparr>"
  by (rule params.equality)
     (simp_all add: findLine_run_foldl line_x_foldl line_y_foldl line_z_foldl initialParams_def
        split: option.splits)

lemma circleOf_fields:
  "circleOf variables w =
     \<lparr>xa = lastOption (assigned (circleNumber variables) ''xa'' w),
      ya = lastOption (assigned (circleNumber variables) ''ya'' w),
      du = lastOption (assigned (circleNumber variables) ''du'' w)\<rparr>"
  by (rule circle.equality)
     (simp_all add: circleOf_def xa_foldl ya_foldl du_foldl initialCircle_def
        split: option.splits)

lemma last_not_in: "xs \<noteq> [] \<Longrightarrow> a \<notin> set xs \<Longrightarrow> last xs \<noteq> a"
  by (metis last_in_set)

lemma nullOrNaN_lastOption_line:
  "nullOrNaN (lastOption (assigned (lineNumber variables) key w)) \<longleftrightarrow>
     assigned (lineNumber variables) key w = []"
  using assigned_lineNumber_not_NaN [of variables key w]
  by (auto simp add: nullOrNaN_def lastOption_def isNaN_def dest: last_not_in)

lemma nullOrNaN_lastOption_circle:
  "nullOrNaN (lastOption (assigned (circleNumber variables) key w)) \<longleftrightarrow>
     assigned (circleNumber variables) key w = []"
  using assigned_circleNumber_not_NaN [of variables key w]
  by (auto simp add: nullOrNaN_def lastOption_def isNaN_def dest: last_not_in)

lemma allFound_circleOf:
  "allFound (circleOf variables w) \<longleftrightarrow>
     assigned (circleNumber variables) ''xa'' w \<noteq> [] \<and>
     assigned (circleNumber variables) ''ya'' w \<noteq> [] \<and>
     assigned (circleNumber variables) ''du'' w \<noteq> []"
  by (simp add: allFound_def circleOf_fields nullOrNaN_lastOption_circle)

lemma findLine_error_iff:
  "findLine content = Inl ParametersNotFound \<longleftrightarrow>
     assigned (lineNumber (parseVariables (split_lines content))) ''x''
       (lineWindow (split_lines content)) = [] \<or>
     assigned (lineNumber (parseVariables (split_lines content))) ''y''
       (lineWindow (split_lines content)) = [] \<or>
     assigned (lineNumber (parseVariables (split_lines content))) ''z''
       (lineWindow (split_lines content)) = []"
  by (simp add: findLine_def Let_def findLine_run_params nullOrNaN_lastOption_line)
subsection \<open>The variable table\<close>

lemma parseVariables_list_no_header:
  "list_all (\<lambda>l. \<not> startsWith (trim l) ''[001'') ls \<Longrightarrow>
   parseVariables_list ls False variables = variables"
  by (induction ls) simp_all

lemma parseVariables_no_header:
  "list_all (\<lambda>l. \<not> startsWith (trim l) ''[001'') lines \<Longrightarrow> parseVariables lines = Map.empty"
  by (simp add: parseVariables_as_list parseVariables_list_no_header)
lemma parseVariables_list_after_end:
  "in001Section \<or> list_ex (\<lambda>l. startsWith (trim l) ''[001'') pre \<Longrightarrow>
   sectionEnd (trim t) \<Longrightarrow> \<not> startsWith (trim t) ''[001'' \<Longrightarrow>
   parseVariables_list (pre @ t # rest) in001Section variables =
     parseVariables_list pre in001Section variables"
proof (induction pre arbitrary: in001Section variables)
  case Nil
  then show ?case by simp
next
  case (Cons l pre)
  show ?case
  proof (cases "startsWith (trim l) ''[001''")
    case True
    with Cons.IH [of True variables] Cons.prems show ?thesis by simp
  next
    case False
    with Cons.prems have "in001Section \<or> list_ex (\<lambda>l. startsWith (trim l) ''[001'') pre"
      by auto
    from Cons.IH [OF this Cons.prems(2,3)] False show ?thesis
      by (cases in001Section) simp_all
  qed
qed

lemma parseVariables_list_skip_header:
  "in001Section \<or> list_ex (\<lambda>l. startsWith (trim l) ''[001'') pre \<Longrightarrow>
   startsWith (trim h) ''[001'' \<Longrightarrow>
   parseVariables_list (pre @ h # rest) in001Section variables =
     parseVariables_list (pre @ rest) in001Section variables"
proof (induction pre arbitrary: in001Section variables)
  case Nil
  then show ?case by simp
next
  case (Cons l pre)
  show ?case
  proof (cases "startsWith (trim l) ''[001''")
    case True
    with Cons.IH [of True variables] Cons.prems show ?thesis by simp
  next
    case False
    with Cons.prems have "in001Section \<or> list_ex (\<lambda>l. startsWith (trim l) ''[001'') pre"
      by auto
    from Cons.IH [OF this Cons.prems(2)] False show ?thesis
      by (cases in001Section) simp_all
  qed
qed
lemma parseVariables_list_inside:
  "parseVariables_list ls True variables =
     foldl (\<lambda>vs l. case assignment l of None \<Rightarrow> vs | Some nv \<Rightarrow> setProperty vs (fst nv) (snd nv))
       variables
       (takeWhile (\<lambda>l. startsWith (trim l) ''[001'' \<or> \<not> sectionEnd (trim l)) ls)"
  by (induction ls arbitrary: variables) (auto simp add: assignment_def split: option.splits)

lemma parseVariables_list_outside:
  "parseVariables_list ls False variables =
     (case dropWhile (\<lambda>l. \<not> startsWith (trim l) ''[001'') ls of
        [] \<Rightarrow> variables
      | header # rest \<Rightarrow> parseVariables_list rest True variables)"
  by (induction ls) simp_all

lemma parseVariables_section:
  "parseVariables lines =
     foldl (\<lambda>vs l. case assignment l of None \<Rightarrow> vs | Some nv \<Rightarrow> setProperty vs (fst nv) (snd nv))
       Map.empty (variablesSection lines)"
proof (cases "dropWhile (\<lambda>l. \<not> startsWith (trim l) ''[001'') lines")
  case Nil
  then show ?thesis
    unfolding parseVariables_as_list parseVariables_list_outside variablesSection_def
    by (simp only: list.case foldl_Nil)
next
  case (Cons header rest)
  then show ?thesis
    unfolding parseVariables_as_list parseVariables_list_outside variablesSection_def
    by (simp only: list.case parseVariables_list_inside)
qed

lemma assignedValues_append:
  "assignedValues name (u @ w) = assignedValues name u @ assignedValues name w"
  by (induction u) (simp_all split: option.splits)

lemma foldl_setProperty:
  "name \<noteq> ''__proto__'' \<Longrightarrow>
   foldl (\<lambda>vs l. case assignment l of None \<Rightarrow> vs | Some nv \<Rightarrow> setProperty vs (fst nv) (snd nv))
     variables ls name
   = (case lastOption (assignedValues name ls) of None \<Rightarrow> variables name | Some v \<Rightarrow> Some v)"
proof (induction ls rule: rev_induct)
  case Nil
  then show ?case by (simp add: lastOption_def)
next
  case (snoc l ls)
  then show ?case
    by (cases "assignment l")
       (auto simp add: assignedValues_append lastOption_def setProperty_def)
qed

lemma foldl_setProperty_proto:
  "foldl (\<lambda>vs l. case assignment l of None \<Rightarrow> vs | Some nv \<Rightarrow> setProperty vs (fst nv) (snd nv))
     variables ls ''__proto__'' = variables ''__proto__''"
proof (induction ls rule: rev_induct)
  case Nil
  then show ?case by simp
next
  case (snoc l ls)
  then show ?case
    by (cases "assignment l") (auto simp add: setProperty_def)
qed

lemma parseVariables_last_write_wins:
  "name \<noteq> ''__proto__'' \<Longrightarrow>
   parseVariables lines name = lastOption (assignedValues name (variablesSection lines))"
  by (simp add: parseVariables_section foldl_setProperty split: option.splits)

lemma parseVariables_proto: "parseVariables lines ''__proto__'' = None"
  by (simp add: parseVariables_section foldl_setProperty_proto)

subsection \<open>Key and value of a line\<close>

lemma dropWhile_id: "xs \<noteq> [] \<Longrightarrow> \<not> P (hd xs) \<Longrightarrow> dropWhile P xs = xs"
  by (cases xs) simp_all

lemma trim_id: "s \<noteq> [] \<Longrightarrow> \<not> isWhiteSpace (hd s) \<Longrightarrow> \<not> isWhiteSpace (last s) \<Longrightarrow> trim s = s"
proof -
  assume s: "s \<noteq> []" "\<not> isWhiteSpace (hd s)" "\<not> isWhiteSpace (last s)"
  then have front: "dropWhile isWhiteSpace s = s"
    by (simp add: dropWhile_id)
  from s have "rev s \<noteq> []" and "\<not> isWhiteSpace (hd (rev s))"
    by (simp_all add: hd_rev)
  then have "dropWhile isWhiteSpace (rev s) = rev s"
    by (rule dropWhile_id)
  with front show ?thesis by (simp add: trim_def)
qed

lemma isWordChar_not_isWhiteSpace: "isWordChar c \<Longrightarrow> \<not> isWhiteSpace c"
  by (auto simp add: isWordChar_def isWhiteSpace_def Let_def)

lemma takeWhile_key:
  "list_all isWordChar key \<Longrightarrow> takeWhile isWordChar (key @ CHR ''='' # v) = key"
  by (simp add: list_all_iff isWordChar_def)

lemma dropWhile_key:
  "list_all isWordChar key \<Longrightarrow> dropWhile isWordChar (key @ CHR ''='' # v) = CHR ''='' # v"
  by (simp add: list_all_iff isWordChar_def)

lemma lineKeyValueMatch_key_value:
  "key \<noteq> [] \<Longrightarrow> list_all isWordChar key \<Longrightarrow> v \<noteq> [] \<Longrightarrow> \<not> isWhiteSpace (hd v) \<Longrightarrow>
   \<not> list_ex isLineTerminator v \<Longrightarrow>
   lineKeyValueMatch (key @ CHR ''='' # v) = Some (key, v)"
proof -
  assume key: "key \<noteq> []" "list_all isWordChar key"
    and v: "v \<noteq> []" "\<not> isWhiteSpace (hd v)" "\<not> list_ex isLineTerminator v"
  have eq: "dropWhile isWhiteSpace (CHR ''='' # v) = CHR ''='' # v"
    by (simp add: isWhiteSpace_def)
  from v have rest: "dropWhile isWhiteSpace v = v"
    by (simp add: dropWhile_id)
  show ?thesis
    unfolding lineKeyValueMatch_def takeWhile_key [OF key(2)] dropWhile_key [OF key(2)] eq
      list.case rest
    using key v by simp
qed

lemma trim_key_value:
  "key \<noteq> [] \<Longrightarrow> list_all isWordChar key \<Longrightarrow> v \<noteq> [] \<Longrightarrow> \<not> isWhiteSpace (last v) \<Longrightarrow>
   trim (key @ CHR ''='' # v) = key @ CHR ''='' # v"
  by (rule trim_id) (auto simp add: list_all_iff isWordChar_not_isWhiteSpace)

lemma stripQuotes_quoted:
  "t \<noteq> [] \<Longrightarrow> \<not> list_ex isLineTerminator t \<Longrightarrow> stripQuotes (CHR 0x22 # t @ [CHR 0x22]) = t"
proof -
  assume t: "t \<noteq> []" "\<not> list_ex isLineTerminator t"
  then have "3 \<le> length (CHR 0x22 # t @ [CHR 0x22])"
    by (cases t) simp_all
  with t show ?thesis
    by (simp add: stripQuotes_def isQuote_def butlast_append)
qed

lemma stripQuotes_unquoted: "\<not> isQuote (hd t) \<Longrightarrow> stripQuotes t = t"
  by (simp add: stripQuotes_def)

lemma resolve_own: "variables t = Some u \<Longrightarrow> resolve variables t = JString u"
  by (simp add: resolve_def getProperty_def)

lemma resolve_unknown:
  "variables t = None \<Longrightarrow> t \<notin> set objectPrototypeNames \<Longrightarrow> resolve variables t = JString t"
  by (simp add: resolve_def getProperty_def)

section \<open>The claims\<close>

text \<open>
  C1, as stated, fails. The claim: \<^verbatim>\<open>findLine\<close> raises its error if and only if at least
  one of x, y, z is not set to a finite number when the window closes. In the document
  below the window sets x to \<^verbatim>\<open>Infinity\<close>, which \<^verbatim>\<open>parseFloat\<close> reads and \<^verbatim>\<open>isNaN\<close>
  lets through: x is not finite and no error is raised.
\<close>

theorem findLine_accepts_Infinity:
  "findLine ''$E\<newline>X=Infinity\<newline>Y=1\<newline>Z=1''
     = Inr \<lparr>line_x = Some PosInfinity, line_y = Some (Finite 1), line_z = Some (Finite 1)\<rparr>
   \<and> \<not> isFinite PosInfinity"
  by code_simp

text \<open>
  C1, amended. \<^verbatim>\<open>findLine\<close> raises its error if and only if at least one of x, y, z is
  still \<^verbatim>\<open>null\<close> when the window of the first \<^verbatim>\<open>$E\<close> line closes. Each of them holds the
  last number that a \<^verbatim>\<open>KEY=VALUE\<close> line of the window gave to its key, and is \<^verbatim>\<open>null\<close>
  when no line did; a number is any value that \<^verbatim>\<open>parseFloat\<close> reads as other than NaN,
  the infinities included. A document without a \<^verbatim>\<open>$E\<close> line raises the error. On the
  error \<^verbatim>\<open>POST\<close> answers with the JSON error of status 500 and no DXF text.
\<close>

theorem findLine_fails_iff_unset:
  "(findLine content = Inl ParametersNotFound \<longleftrightarrow>
      line_x (fst (findLine_run content)) = None \<or>
      line_y (fst (findLine_run content)) = None \<or>
      line_z (fst (findLine_run content)) = None)
   \<and> fst (findLine_run content) =
       \<lparr>line_x = lastOption (assigned (lineNumber (parseVariables (split_lines content))) ''x''
                              (lineWindow (split_lines content))),
        line_y = lastOption (assigned (lineNumber (parseVariables (split_lines content))) ''y''
                              (lineWindow (split_lines content))),
        line_z = lastOption (assigned (lineNumber (parseVariables (split_lines content))) ''z''
                              (lineWindow (split_lines content)))\<rparr>
   \<and> (list_all (\<lambda>l. \<not> startsWith (trim l) ''$E'') (split_lines content) \<longrightarrow>
        findLine content = Inl ParametersNotFound)
   \<and> (findLine content = Inl ParametersNotFound \<longrightarrow>
        POST str (Some content) = JsonError 500 (errorMessage ParametersNotFound))"
proof (intro conjI impI)
  show "findLine content = Inl ParametersNotFound \<longleftrightarrow>
      line_x (fst (findLine_run content)) = None \<or>
      line_y (fst (findLine_run content)) = None \<or>
      line_z (fst (findLine_run content)) = None"
    by (simp add: findLine_error_iff findLine_run_params lastOption_def)
  show "fst (findLine_run content) =
       \<lparr>line_x = lastOption (assigned (lineNumber (parseVariables (split_lines content))) ''x''
                              (lineWindow (split_lines content))),
        line_y = lastOption (assigned (lineNumber (parseVariables (split_lines content))) ''y''
                              (lineWindow (split_lines content))),
        line_z = lastOption (assigned (lineNumber (parseVariables (split_lines content))) ''z''
                              (lineWindow (split_lines content)))\<rparr>"
    by (rule findLine_run_params)
next
  assume "list_all (\<lambda>l. \<not> startsWith (trim l) ''$E'') (split_lines content)"
  then have "dropWhile (\<lambda>l. \<not> startsWith (trim l) ''$E'') (split_lines content) = []"
    by (simp add: list_all_iff)
  then have "lineWindow (split_lines content) = []"
    unfolding lineWindow_def by (simp only: list.case)
  then show "findLine content = Inl ParametersNotFound"
    by (simp add: findLine_error_iff)
next
  assume "findLine content = Inl ParametersNotFound"
  then show "POST str (Some content) = JsonError 500 (errorMessage ParametersNotFound)"
    by (simp add: POST_def)
qed

theorem findLine_fails_iff_unset_witness:
  \<open>findLine ''[001\<newline>A="1"\<newline>'' = Inl ParametersNotFound
   \<and> POST (\<lambda>n. []) (Some ''[001\<newline>A="1"\<newline>'')
       = JsonError 500 ''One or more parameters (x, y, z) were not found in the file.''\<close>
proof -
  have noE: \<open>list_all (\<lambda>l. \<not> startsWith (trim l) ''$E'') (split_lines ''[001\<newline>A="1"\<newline>'')\<close>
    by code_simp
  note claim = findLine_fails_iff_unset [of \<open>''[001\<newline>A="1"\<newline>''\<close> \<open>\<lambda>n. []\<close>]
  from claim noE have err: \<open>findLine ''[001\<newline>A="1"\<newline>'' = Inl ParametersNotFound\<close>
    by blast
  with claim have \<open>POST (\<lambda>n. []) (Some ''[001\<newline>A="1"\<newline>'')
                   = JsonError 500 (errorMessage ParametersNotFound)\<close>
    by blast
  with err show ?thesis by (simp add: errorMessage_def)
qed

text \<open>
  C2, as stated, fails. The claim: a circle is appended if and only if xa, ya and du were
  all found in the window and parsed as finite numbers. In the document below du is
  \<^verbatim>\<open>Infinity\<close>, which is not finite, and the circle is appended.
\<close>

theorem findCircles_accepts_Infinity:
  \<open>findCircles ''<102\<newline>XA="1"\<newline>YA="2"\<newline>DU="Infinity"''
     = [\<lparr>xa = Some (Finite 1), ya = Some (Finite 2), du = Some PosInfinity\<rparr>]
   \<and> \<not> isFinite PosInfinity\<close>
  by code_simp

text \<open>
  C2, amended. The result of \<^verbatim>\<open>findCircles\<close> is made of the circles of exactly those
  \<^verbatim>\<open><102\<close> lines whose window gives a number to each of xa, ya and du, a number being
  any value that \<^verbatim>\<open>parseFloat\<close> reads as other than NaN, the infinities included; the
  other \<^verbatim>\<open><102\<close> sections leave nothing in the result. Whatever the circles are, even
  none, a document whose line is found is answered with the DXF text of that line and those
  circles.
\<close>

theorem findCircles_appends_iff_all_assigned:
  "findCircles content =
     map (\<lambda>i. circleOf (parseVariables (split_lines content))
                 (circleWindow (split_lines content) i))
       (filter
          (\<lambda>i. \<forall>key \<in> set [''xa'', ''ya'', ''du''].
                  assigned (circleNumber (parseVariables (split_lines content))) key
                    (circleWindow (split_lines content) i) \<noteq> [])
          (markerIndices (split_lines content)))
   \<and> (findLine content = Inr line \<longrightarrow>
        POST str (Some content) = DxfAttachment (createDxf str line (findCircles content)))"
proof (intro conjI impI)
  show "findCircles content =
     map (\<lambda>i. circleOf (parseVariables (split_lines content))
                 (circleWindow (split_lines content) i))
       (filter
          (\<lambda>i. \<forall>key \<in> set [''xa'', ''ya'', ''du''].
                  assigned (circleNumber (parseVariables (split_lines content))) key
                    (circleWindow (split_lines content) i) \<noteq> [])
          (markerIndices (split_lines content)))"
    by (simp add: findCircles_markers filter_map comp_def allFound_circleOf)
next
  assume "findLine content = Inr line"
  then show "POST str (Some content) = DxfAttachment (createDxf str line (findCircles content))"
    by (simp add: POST_def)
qed

theorem findCircles_appends_iff_all_assigned_witness:
  \<open>findCircles ''$E\<newline>X=1\<newline>Y=2\<newline>Z=3\<newline><102\<newline>XA="1"\<newline>YA="2"\<newline><102\<newline>XA="4"\<newline>YA="5"\<newline>DU="6"''
     = [\<lparr>xa = Some (Finite 4), ya = Some (Finite 5), du = Some (Finite 6)\<rparr>]
   \<and> POST (\<lambda>n. ''n'')
        (Some ''$E\<newline>X=1\<newline>Y=2\<newline>Z=3\<newline><102\<newline>XA="1"\<newline>YA="2"\<newline><102\<newline>XA="4"\<newline>YA="5"\<newline>DU="6"'')
     = DxfAttachment
         (createDxf (\<lambda>n. ''n'')
            \<lparr>line_x = Some (Finite 1), line_y = Some (Finite 2), line_z = Some (Finite 3)\<rparr>
            [\<lparr>xa = Some (Finite 4), ya = Some (Finite 5), du = Some (Finite 6)\<rparr>])\<close>
proof -
  let ?doc = \<open>''$E\<newline>X=1\<newline>Y=2\<newline>Z=3\<newline><102\<newline>XA="1"\<newline>YA="2"\<newline><102\<newline>XA="4"\<newline>YA="5"\<newline>DU="6"''\<close>
  let ?line = "\<lparr>line_x = Some (Finite 1), line_y = Some (Finite 2), line_z = Some (Finite 3)\<rparr>"
  note claim = findCircles_appends_iff_all_assigned [of ?doc ?line "\<lambda>n. ''n''"]
  have found: "findLine ?doc = Inr ?line"
    by code_simp
  have kept: "map (\<lambda>i. circleOf (parseVariables (split_lines ?doc)) (circleWindow (split_lines ?doc) i))
       (filter
          (\<lambda>i. \<forall>key \<in> set [''xa'', ''ya'', ''du''].
                  assigned (circleNumber (parseVariables (split_lines ?doc))) key
                    (circleWindow (split_lines ?doc) i) \<noteq> [])
          (markerIndices (split_lines ?doc)))
     = [\<lparr>xa = Some (Finite 4), ya = Some (Finite 5), du = Some (Finite 6)\<rparr>]"
    by code_simp
  from claim kept have circles:
    "findCircles ?doc = [\<lparr>xa = Some (Finite 4), ya = Some (Finite 5), du = Some (Finite 6)\<rparr>]"
    by (simp only:)
  from claim found have "POST (\<lambda>n. ''n'') (Some ?doc)
      = DxfAttachment (createDxf (\<lambda>n. ''n'') ?line (findCircles ?doc))"
    by blast
  with circles show ?thesis by (simp only:)
qed

text \<open>
  C3, as stated, fails. The claim: a syntactically valid \<^verbatim>\<open>KEY=VALUE\<close> pair outside the
  window of the first \<^verbatim>\<open>$E\<close> line never affects the extracted x, y, z. The two documents
  below have the same window, the lines \<^verbatim>\<open>X=X\<close>, \<^verbatim>\<open>Y=1\<close>, \<^verbatim>\<open>Z=1\<close>, closed by a
  blank line, and differ only in the pair \<^verbatim>\<open>X="9"\<close> that follows a \<^verbatim>\<open>[001\<close> header after
  the window. \<^verbatim>\<open>parseVariables\<close> reads the whole document: with the pair the table maps
  \<^verbatim>\<open>X\<close> to \<^verbatim>\<open>9\<close> and the extracted x is 9; without it x stays unset and \<^verbatim>\<open>findLine\<close>
  raises its error.
\<close>

theorem findLine_pair_after_window_sets_variable:
  \<open>lineWindow (split_lines ''$E\<newline>X=X\<newline>Y=1\<newline>Z=1\<newline>\<newline>[001\<newline>X="9"'')
     = [''X=X'', ''Y=1'', ''Z=1'']
   \<and> lineWindow (split_lines ''$E\<newline>X=X\<newline>Y=1\<newline>Z=1\<newline>\<newline>[001'')
     = [''X=X'', ''Y=1'', ''Z=1'']
   \<and> findLine ''$E\<newline>X=X\<newline>Y=1\<newline>Z=1\<newline>\<newline>[001\<newline>X="9"''
     = Inr \<lparr>line_x = Some (Finite 9), line_y = Some (Finite 1), line_z = Some (Finite 1)\<rparr>
   \<and> findLine ''$E\<newline>X=X\<newline>Y=1\<newline>Z=1\<newline>\<newline>[001'' = Inl ParametersNotFound\<close>
  by code_simp

text \<open>
  C3, amended. Line extraction reads the document in two ways only: the variable table, which
  \<^verbatim>\<open>parseVariables\<close> builds from the \<^verbatim>\<open>[001\<close> section wherever it stands, and the window
  of the first \<^verbatim>\<open>$E\<close> line, the lines, at most 10, that follow it, up to the first of them
  that is blank or starts with \<^verbatim>\<open>$E\<close>, \<^verbatim>\<open>[\<close> or \<^verbatim>\<open><\<close> (\<^const>\<open>lineWindow\<close>). The
  parameters and the warnings are the result of applying the lines of that window, in
  order, under that table. So two documents with the same variable table and the same
  window give the same parameters, the same warnings and the same outcome of
  \<^verbatim>\<open>findLine\<close>: a \<^verbatim>\<open>KEY=VALUE\<close> line outside the window, in a later \<^verbatim>\<open>$E\<close> section,
  beyond the tenth line or after a blank line, affects x, y, z only when it changes the
  variable table. That the window is this run of lines, whatever stands before the marker
  and after the run, is \<open>lineWindow_of_parts\<close>.
\<close>

theorem findLine_only_table_and_first_window:
  "findLine_run d1 =
     foldl (lineStep (parseVariables (split_lines d1))) (initialParams, [])
       (lineWindow (split_lines d1))
   \<and> (parseVariables (split_lines d1) = parseVariables (split_lines d2) \<and>
       lineWindow (split_lines d1) = lineWindow (split_lines d2) \<longrightarrow>
         findLine_run d1 = findLine_run d2 \<and> findLine d1 = findLine d2)"
proof (intro conjI impI)
  show "findLine_run d1 =
     foldl (lineStep (parseVariables (split_lines d1))) (initialParams, [])
       (lineWindow (split_lines d1))"
    by (rule findLine_run_foldl)
next
  assume same: "parseVariables (split_lines d1) = parseVariables (split_lines d2) \<and>
       lineWindow (split_lines d1) = lineWindow (split_lines d2)"
  have "findLine_run d1 =
          foldl (lineStep (parseVariables (split_lines d1))) (initialParams, [])
            (lineWindow (split_lines d1))"
    by (rule findLine_run_foldl)
  also have "\<dots> =
          foldl (lineStep (parseVariables (split_lines d2))) (initialParams, [])
            (lineWindow (split_lines d2))"
    using same by simp
  also have "\<dots> = findLine_run d2"
    by (rule findLine_run_foldl [symmetric])
  finally show run: "findLine_run d1 = findLine_run d2" .
  then show "findLine d1 = findLine d2"
    by (simp add: findLine_def)
qed

theorem findLine_only_table_and_first_window_witness:
  "findLine ''$E\<newline>X=1\<newline>Y=2\<newline>Z=3\<newline>A=0\<newline>A=0\<newline>A=0\<newline>A=0\<newline>A=0\<newline>A=0\<newline>A=0\<newline>X=9\<newline>$E\<newline>Y=8''
     = findLine ''$E\<newline>X=1\<newline>Y=2\<newline>Z=3\<newline>A=0\<newline>A=0\<newline>A=0\<newline>A=0\<newline>A=0\<newline>A=0\<newline>A=0''
   \<and> findLine ''$E\<newline>X=1\<newline>Y=2\<newline>Z=3\<newline>\<newline>X=9''
     = findLine ''$E\<newline>X=1\<newline>Y=2\<newline>Z=3''
   \<and> findLine ''$E\<newline>X=1\<newline>Y=2\<newline>Z=3''
     = Inr \<lparr>line_x = Some (Finite 1), line_y = Some (Finite 2), line_z = Some (Finite 3)\<rparr>"
proof -
  let ?long = "''$E\<newline>X=1\<newline>Y=2\<newline>Z=3\<newline>A=0\<newline>A=0\<newline>A=0\<newline>A=0\<newline>A=0\<newline>A=0\<newline>A=0\<newline>X=9\<newline>$E\<newline>Y=8''"
  let ?cut = "''$E\<newline>X=1\<newline>Y=2\<newline>Z=3\<newline>A=0\<newline>A=0\<newline>A=0\<newline>A=0\<newline>A=0\<newline>A=0\<newline>A=0''"
  let ?blank = "''$E\<newline>X=1\<newline>Y=2\<newline>Z=3\<newline>\<newline>X=9''"
  let ?plain = "''$E\<newline>X=1\<newline>Y=2\<newline>Z=3''"
  have "list_all (\<lambda>l. \<not> startsWith (trim l) ''[001'') (split_lines ?long)"
    and "list_all (\<lambda>l. \<not> startsWith (trim l) ''[001'') (split_lines ?cut)"
    by code_simp+
  then have vars1: "parseVariables (split_lines ?long) = parseVariables (split_lines ?cut)"
    by (simp only: parseVariables_no_header)
  have window1: "lineWindow (split_lines ?long) = lineWindow (split_lines ?cut)"
    by code_simp
  have "list_all (\<lambda>l. \<not> startsWith (trim l) ''[001'') (split_lines ?blank)"
    and "list_all (\<lambda>l. \<not> startsWith (trim l) ''[001'') (split_lines ?plain)"
    by code_simp+
  then have vars2: "parseVariables (split_lines ?blank) = parseVariables (split_lines ?plain)"
    by (simp only: parseVariables_no_header)
  have window2: "lineWindow (split_lines ?blank) = lineWindow (split_lines ?plain)"
    by code_simp
  have plain: "findLine ?plain
      = Inr \<lparr>line_x = Some (Finite 1), line_y = Some (Finite 2), line_z = Some (Finite 3)\<rparr>"
    by code_simp
  from findLine_only_table_and_first_window [of ?long ?cut] vars1 window1
  have one: "findLine ?long = findLine ?cut"
    by blast
  from findLine_only_table_and_first_window [of ?blank ?plain] vars2 window2
  have two: "findLine ?blank = findLine ?plain"
    by blast
  from one two plain show ?thesis by blast
qed

text \<open>
  C4. \<^verbatim>\<open>findCircles\<close> processes every line whose trimmed content starts with \<^verbatim>\<open><102\<close>:
  its result is, for the indices of these lines in ascending order, the circle described by
  the window of each index \<open>i\<close>, the lines, at most 15, that follow line \<open>i\<close>, taken up to
  the end of the document or the first of them that is blank or starts with \<^verbatim>\<open><\<close>,
  \<^verbatim>\<open>[\<close> or \<^verbatim>\<open>$\<close>; the circles that are not complete are left out and the others keep
  the order of their markers.
\<close>

theorem findCircles_every_marker_in_order:
  "findCircles content =
     filter allFound
       (map (\<lambda>i. circleOf (parseVariables (split_lines content))
                   (takeWhile (\<lambda>l. \<not> sectionEnd (trim l))
                      (take 15 (drop (Suc i) (split_lines content)))))
          (filter (\<lambda>i. startsWith (trim (split_lines content ! i)) ''<102'')
             [0..<length (split_lines content)]))"
proof -
  have window: "circleWindow (split_lines content) i =
      takeWhile (\<lambda>l. \<not> sectionEnd (trim l)) (take 15 (drop (Suc i) (split_lines content)))"
    for i
    by (simp add: circleWindow_def windowAfter_def)
  have markers: "markerIndices (split_lines content) =
      filter (\<lambda>i. startsWith (trim (split_lines content ! i)) ''<102'')
        [0..<length (split_lines content)]"
    by (simp add: markerIndices_def)
  show ?thesis
    unfolding findCircles_markers window markers by (rule refl)
qed

text \<open>
  Three sections give three circles in the order of the document; the line between the
  second and the third section is no marker and opens no window.
\<close>

lemma findCircles_three_in_order:
  \<open>findCircles ''<102\<newline>XA="1"\<newline>YA="1"\<newline>DU="1"\<newline><102 A\<newline>DU="2"\<newline>XA="2"\<newline>YA="2"\<newline><103\<newline>XA="9"\<newline>  <102\<newline>xa="3"\<newline>Ya="3"\<newline>dU="3"''
     = [\<lparr>xa = Some (Finite 1), ya = Some (Finite 1), du = Some (Finite 1)\<rparr>,
        \<lparr>xa = Some (Finite 2), ya = Some (Finite 2), du = Some (Finite 2)\<rparr>,
        \<lparr>xa = Some (Finite 3), ya = Some (Finite 3), du = Some (Finite 3)\<rparr>]\<close>
  by code_simp

text \<open>
  C5. For every line descriptor and every sequence of circle descriptors, \<^verbatim>\<open>createDxf\<close>
  returns exactly the text of the fixed skeleton: the groups of an empty \<^verbatim>\<open>HEADER\<close>
  section, of an \<^verbatim>\<open>ENTITIES\<close> section with one \<^verbatim>\<open>LINE\<close> on layer 0 from
  \<open>(0.0, 0.0, z)\<close> to \<open>(x, y, z)\<close> and then one \<^verbatim>\<open>CIRCLE\<close> on layer 0 for each circle, in
  the order of the input, centred at \<open>(xa, ya, 0.0)\<close> with the radius \<open>du / 2\<close>, then
  \<^verbatim>\<open>ENDSEC\<close> and \<^verbatim>\<open>EOF\<close>, every group being its code, a line feed and its value, and
  the groups joined by line feeds. The only group codes are 0, 2, 8, 10, 11, 20, 21, 30, 31
  and 40, and the radius of a finite diameter \<open>d\<close> is \<open>d / 2\<close>. The function is total: it
  returns this text for every input.
\<close>

theorem createDxf_skeleton:
  "createDxf str line circles = renderGroups (dxfGroups str line circles)
   \<and> set (map fst (dxfGroups str line circles)) \<subseteq> set groupCodes
   \<and> half (Some (Finite d)) = Some (Finite (d / 2))"
proof (intro conjI)
  show "createDxf str line circles = renderGroups (dxfGroups str line circles)"
    by (rule createDxf_renderGroups)
  show "set (map fst (dxfGroups str line circles)) \<subseteq> set groupCodes"
    by (rule dxfGroups_codes)
  show "half (Some (Finite d)) = Some (Finite (d / 2))"
    by (simp add: half_def)
qed

text \<open>
  C6. The claim: the substitution returns the table's value when the quote-stripped token
  is a key of the table and the token unchanged otherwise. The source tests
  \<^verbatim>\<open>variables[value] !== undefined\<close> on a plain object, which also finds the members that
  the object inherits from \<^verbatim>\<open>Object.prototype\<close>. In the document below no variable is
  defined, the token \<^verbatim>\<open>toString\<close> is not a key of the table, and the substitution does
  not return the token: it returns the inherited function, which is what the warning then
  carries. For a key of the table, and for any other token that is not a member of
  \<^verbatim>\<open>Object.prototype\<close>, the claim holds (\<open>resolve_own\<close>, \<open>resolve_unknown\<close>).
\<close>

theorem resolve_returns_inherited_member:
  "parseVariables (split_lines ''$E\<newline>X=toString\<newline>Y=1\<newline>Z=1'') ''toString'' = None
   \<and> resolve (parseVariables (split_lines ''$E\<newline>X=toString\<newline>Y=1\<newline>Z=1'')) ''toString''
       = JInherited ''toString''
   \<and> JInherited ''toString'' \<noteq> JString ''toString''
   \<and> findLine_run ''$E\<newline>X=toString\<newline>Y=1\<newline>Z=1''
       = (\<lparr>line_x = None, line_y = Some (Finite 1), line_z = Some (Finite 1)\<rparr>,
          [(''Non-numeric value for X:'', JInherited ''toString'')])"
  by code_simp

text \<open>
  The example of the claim holds: with \<^verbatim>\<open>FOO="12.5"\<close> in the variables section and
  \<^verbatim>\<open>X=FOO\<close> in the \<^verbatim>\<open>$E\<close> section, the extracted x is 12.5.
\<close>

lemma findLine_substitutes_variable:
  \<open>findLine ''[001\<newline>FOO="12.5"\<newline>\<newline>$E\<newline>X=FOO\<newline>Y=1\<newline>Z=1''
     = Inr \<lparr>line_x = Some (Finite (25 / 2)), line_y = Some (Finite 1), line_z = Some (Finite 1)\<rparr>\<close>
  by code_simp

text \<open>
  C7. Let \<open>l\<close> be a \<^verbatim>\<open>KEY=VALUE\<close> line of the window of the first \<^verbatim>\<open>$E\<close> line, with the
  lines \<open>w1\<close> of the window before it and the lines \<open>w2\<close> after it. When the value of \<open>l\<close>,
  after quote stripping and substitution, does not parse as a number, the scan goes on
  through \<open>w2\<close> from the parameters that \<open>w1\<close> left, unchanged, with one warning for \<open>l\<close>
  added to those of \<open>w1\<close>; nothing is aborted. When it parses as the number \<open>n\<close> and the key
  is x (or y, or z), and no line of \<open>w2\<close> gives x a number, the extracted x is \<open>n\<close>
  whatever \<open>w1\<close> had given to x: the later occurrence overwrites the earlier ones.
\<close>

theorem findLine_skips_malformed_and_last_value_wins:
  "lineWindow (split_lines content) = w1 @ l # w2 \<Longrightarrow>
   lineKeyValueMatch (trim l) = Some m \<Longrightarrow>
   (isNaN (parseFloatValue
             (resolve (parseVariables (split_lines content)) (stripQuotes (trim (snd m))))) \<longrightarrow>
      findLine_run content =
        foldl (lineStep (parseVariables (split_lines content)))
          (fst (foldl (lineStep (parseVariables (split_lines content))) (initialParams, []) w1),
           snd (foldl (lineStep (parseVariables (split_lines content))) (initialParams, []) w1)
           @ [nonNumericWarning (toLowerCase (fst m))
                (resolve (parseVariables (split_lines content)) (stripQuotes (trim (snd m))))])
          w2)
   \<and> (lineNumber (parseVariables (split_lines content)) l = Some (''x'', n) \<and>
       assigned (lineNumber (parseVariables (split_lines content))) ''x'' w2 = [] \<longrightarrow>
         line_x (fst (findLine_run content)) = Some n)
   \<and> (lineNumber (parseVariables (split_lines content)) l = Some (''y'', n) \<and>
       assigned (lineNumber (parseVariables (split_lines content))) ''y'' w2 = [] \<longrightarrow>
         line_y (fst (findLine_run content)) = Some n)
   \<and> (lineNumber (parseVariables (split_lines content)) l = Some (''z'', n) \<and>
       assigned (lineNumber (parseVariables (split_lines content))) ''z'' w2 = [] \<longrightarrow>
         line_z (fst (findLine_run content)) = Some n)"
proof (intro conjI impI)
  assume window: "lineWindow (split_lines content) = w1 @ l # w2"
    and match: "lineKeyValueMatch (trim l) = Some m"
    and nan: "isNaN (parseFloatValue
                (resolve (parseVariables (split_lines content)) (stripQuotes (trim (snd m)))))"
  let ?V = "parseVariables (split_lines content)"
  let ?s1 = "foldl (lineStep ?V) (initialParams, []) w1"
  have "lineStep ?V ?s1 l =
          (fst ?s1, snd ?s1 @ [nonNumericWarning (toLowerCase (fst m))
                                 (resolve ?V (stripQuotes (trim (snd m))))])"
    using match nan by (simp add: lineStep_def lineKeyValue_def Let_def)
  then show "findLine_run content =
        foldl (lineStep ?V)
          (fst ?s1, snd ?s1 @ [nonNumericWarning (toLowerCase (fst m))
                                 (resolve ?V (stripQuotes (trim (snd m))))])
          w2"
    by (simp add: findLine_run_foldl window)
next
  assume window: "lineWindow (split_lines content) = w1 @ l # w2"
    and "lineNumber (parseVariables (split_lines content)) l = Some (''x'', n) \<and>
       assigned (lineNumber (parseVariables (split_lines content))) ''x'' w2 = []"
  then show "line_x (fst (findLine_run content)) = Some n"
    by (simp add: findLine_run_params assigned_append lastOption_def)
next
  assume window: "lineWindow (split_lines content) = w1 @ l # w2"
    and "lineNumber (parseVariables (split_lines content)) l = Some (''y'', n) \<and>
       assigned (lineNumber (parseVariables (split_lines content))) ''y'' w2 = []"
  then show "line_y (fst (findLine_run content)) = Some n"
    by (simp add: findLine_run_params assigned_append lastOption_def)
next
  assume window: "lineWindow (split_lines content) = w1 @ l # w2"
    and "lineNumber (parseVariables (split_lines content)) l = Some (''z'', n) \<and>
       assigned (lineNumber (parseVariables (split_lines content))) ''z'' w2 = []"
  then show "line_z (fst (findLine_run content)) = Some n"
    by (simp add: findLine_run_params assigned_append lastOption_def)
qed

theorem findLine_skips_malformed_and_last_value_wins_witness:
  "findLine_run ''$E\<newline>X=1\<newline>X=abc\<newline>Y=2\<newline>Z=3''
     = (\<lparr>line_x = Some (Finite 1), line_y = Some (Finite 2), line_z = Some (Finite 3)\<rparr>,
        [(''Non-numeric value for X:'', JString ''abc'')])
   \<and> line_x (fst (findLine_run ''$E\<newline>X=1\<newline>X=2\<newline>Y=3\<newline>Z=4'')) = Some (Finite 2)"
proof -
  let ?a = "''$E\<newline>X=1\<newline>X=abc\<newline>Y=2\<newline>Z=3''"
  let ?b = "''$E\<newline>X=1\<newline>X=2\<newline>Y=3\<newline>Z=4''"
  have windowA: "lineWindow (split_lines ?a) = [''X=1''] @ ''X=abc'' # [''Y=2'', ''Z=3'']"
    by code_simp
  have matchA: "lineKeyValueMatch (trim ''X=abc'') = Some (''X'', ''abc'')"
    by code_simp
  have nanA: "isNaN (parseFloatValue
                (resolve (parseVariables (split_lines ?a)) (stripQuotes (trim (snd (''X'', ''abc''))))))"
    by code_simp
  have restA:
    "foldl (lineStep (parseVariables (split_lines ?a)))
       (fst (foldl (lineStep (parseVariables (split_lines ?a))) (initialParams, []) [''X=1'']),
        snd (foldl (lineStep (parseVariables (split_lines ?a))) (initialParams, []) [''X=1''])
        @ [nonNumericWarning (toLowerCase (fst (''X'', ''abc'')))
             (resolve (parseVariables (split_lines ?a)) (stripQuotes (trim (snd (''X'', ''abc'')))))])
       [''Y=2'', ''Z=3'']
     = (\<lparr>line_x = Some (Finite 1), line_y = Some (Finite 2), line_z = Some (Finite 3)\<rparr>,
        [(''Non-numeric value for X:'', JString ''abc'')])"
    by code_simp
  from findLine_skips_malformed_and_last_value_wins [OF windowA matchA] nanA
  have "findLine_run ?a =
     foldl (lineStep (parseVariables (split_lines ?a)))
       (fst (foldl (lineStep (parseVariables (split_lines ?a))) (initialParams, []) [''X=1'']),
        snd (foldl (lineStep (parseVariables (split_lines ?a))) (initialParams, []) [''X=1''])
        @ [nonNumericWarning (toLowerCase (fst (''X'', ''abc'')))
             (resolve (parseVariables (split_lines ?a)) (stripQuotes (trim (snd (''X'', ''abc'')))))])
       [''Y=2'', ''Z=3'']"
    by blast
  with restA have a: "findLine_run ?a
     = (\<lparr>line_x = Some (Finite 1), line_y = Some (Finite 2), line_z = Some (Finite 3)\<rparr>,
        [(''Non-numeric value for X:'', JString ''abc'')])"
    by (simp only:)
  have windowB: "lineWindow (split_lines ?b) = [''X=1''] @ ''X=2'' # [''Y=3'', ''Z=4'']"
    by code_simp
  have matchB: "lineKeyValueMatch (trim ''X=2'') = Some (''X'', ''2'')"
    by code_simp
  have numberB: "lineNumber (parseVariables (split_lines ?b)) ''X=2'' = Some (''x'', Finite 2)"
    by code_simp
  have restB: "assigned (lineNumber (parseVariables (split_lines ?b))) ''x'' [''Y=3'', ''Z=4''] = []"
    by code_simp
  from findLine_skips_malformed_and_last_value_wins [OF windowB matchB, of "Finite 2"]
    numberB restB
  have b: "line_x (fst (findLine_run ?b)) = Some (Finite 2)"
    by blast
  from a b show ?thesis by blast
qed

text \<open>
  C8. The claim: when the variables section assigns a name more than once, the table maps
  the name to the value of the last assignment, and without a \<^verbatim>\<open>[001\<close> header the table
  is empty. It holds for every name but one (\<open>parseVariables_last_write_wins\<close>,
  \<open>parseVariables_no_header\<close>). The table is a plain object, and the assignment
  \<^verbatim>\<open>variables['__proto__'] = varValue\<close> runs the setter inherited from
  \<^verbatim>\<open>Object.prototype\<close>, which ignores a string. In the document below the section assigns
  \<^verbatim>\<open>__proto__\<close> twice; the table has no entry for it, a lookup finds the inherited member
  instead of \<^verbatim>\<open>2\<close>, and the line that refers to the variable gets no x.
\<close>

theorem parseVariables_loses_proto:
  \<open>assignedValues ''__proto__''
      (variablesSection
         (split_lines ''[001\<newline>__proto__="1"\<newline>__proto__="2"\<newline>\<newline>$E\<newline>X=__proto__\<newline>Y=1\<newline>Z=1''))
     = [''1'', ''2'']
   \<and> parseVariables
        (split_lines ''[001\<newline>__proto__="1"\<newline>__proto__="2"\<newline>\<newline>$E\<newline>X=__proto__\<newline>Y=1\<newline>Z=1'')
        ''__proto__'' = None
   \<and> getProperty
        (parseVariables
           (split_lines ''[001\<newline>__proto__="1"\<newline>__proto__="2"\<newline>\<newline>$E\<newline>X=__proto__\<newline>Y=1\<newline>Z=1''))
        ''__proto__'' = JInherited ''__proto__''
   \<and> fst (findLine_run ''[001\<newline>__proto__="1"\<newline>__proto__="2"\<newline>\<newline>$E\<newline>X=__proto__\<newline>Y=1\<newline>Z=1'')
     = \<lparr>line_x = None, line_y = Some (Finite 1), line_z = Some (Finite 1)\<rparr>\<close>
  by code_simp

text \<open>
  C9. In line extraction the quotes are stripped before the table is looked up: for a key
  of word characters and a token \<open>t\<close> that is not empty, has no white space at either end,
  no line terminator and no quote in front, the line \<^verbatim>\<open>key="t"\<close> does to the parameters
  and to the warnings exactly what the line \<^verbatim>\<open>key=t\<close> does, under every table. The
  substitution is applied once: when the table maps \<open>t\<close> to \<open>u\<close>, either line sets the
  parameter of its key to \<^verbatim>\<open>parseFloat\<close> of \<open>u\<close> itself, or, when \<open>u\<close> is not numeric,
  changes no parameter and warns with \<open>u\<close>, whether or not \<open>u\<close> is a name of the table too.
  The same holds of \<^verbatim>\<open>findLine\<close> on a document: when such a line stands in the window of
  the first \<^verbatim>\<open>$E\<close> line, after the lines \<open>w1\<close> and before the lines \<open>w2\<close>, the scan goes
  on through \<open>w2\<close> from the parameters that \<open>w1\<close> left, with that one change.
\<close>

theorem findLine_strips_quotes_then_substitutes_once:
  \<open>key \<noteq> [] \<Longrightarrow> list_all isWordChar key \<Longrightarrow>
   t \<noteq> [] \<Longrightarrow> \<not> isWhiteSpace (hd t) \<Longrightarrow> \<not> isWhiteSpace (last t) \<Longrightarrow>
   \<not> list_ex isLineTerminator t \<Longrightarrow> \<not> isQuote (hd t) \<Longrightarrow>
   lineStep variables st (key @ ''="'' @ t @ ''"'') = lineStep variables st (key @ ''='' @ t)
   \<and> (variables t = Some u \<longrightarrow>
        lineStep variables st (key @ ''='' @ t) =
          (if isNaN (parseFloat u)
           then (fst st, snd st @ [nonNumericWarning (toLowerCase key) (JString u)])
           else (setLineParam (toLowerCase key) (parseFloat u) (fst st), snd st)))
   \<and> (lineWindow (split_lines content) = w1 @ l # w2 \<and>
       (l = key @ ''="'' @ t @ ''"'' \<or> l = key @ ''='' @ t) \<and>
       parseVariables (split_lines content) t = Some u \<longrightarrow>
        findLine_run content =
          foldl (lineStep (parseVariables (split_lines content)))
            (if isNaN (parseFloat u)
             then (fst (foldl (lineStep (parseVariables (split_lines content)))
                          (initialParams, []) w1),
                   snd (foldl (lineStep (parseVariables (split_lines content)))
                          (initialParams, []) w1)
                   @ [nonNumericWarning (toLowerCase key) (JString u)])
             else (setLineParam (toLowerCase key) (parseFloat u)
                     (fst (foldl (lineStep (parseVariables (split_lines content)))
                             (initialParams, []) w1)),
                   snd (foldl (lineStep (parseVariables (split_lines content)))
                          (initialParams, []) w1)))
            w2)\<close>
proof -
  assume key: "key \<noteq> []" "list_all isWordChar key"
    and t: "t \<noteq> []" "\<not> isWhiteSpace (hd t)" "\<not> isWhiteSpace (last t)"
      "\<not> list_ex isLineTerminator t" "\<not> isQuote (hd t)"
  let ?q = "CHR 0x22 # t @ [CHR 0x22]"
  have q: "?q \<noteq> []" "\<not> isWhiteSpace (hd ?q)" "\<not> isWhiteSpace (last ?q)"
    "\<not> list_ex isLineTerminator ?q"
    using t by (simp_all add: isWhiteSpace_def isLineTerminator_def)
  have trimQ: "trim (key @ CHR ''='' # ?q) = key @ CHR ''='' # ?q"
    using key q by (intro trim_key_value) simp_all
  have trimT: "trim (key @ CHR ''='' # t) = key @ CHR ''='' # t"
    using key t by (intro trim_key_value) simp_all
  have matchQ: "lineKeyValueMatch (key @ CHR ''='' # ?q) = Some (key, ?q)"
    using key q by (intro lineKeyValueMatch_key_value) simp_all
  have matchT: "lineKeyValueMatch (key @ CHR ''='' # t) = Some (key, t)"
    using key t by (intro lineKeyValueMatch_key_value) simp_all
  have valueQ: "stripQuotes (trim ?q) = t"
    using t q by (simp add: trim_id stripQuotes_quoted)
  have valueT: "stripQuotes (trim t) = t"
    using t by (simp add: trim_id stripQuotes_unquoted)
  have same: "lineStep V s (key @ CHR ''='' # ?q) = lineStep V s (key @ CHR ''='' # t)" for V s
    by (simp add: lineStep_def trimQ trimT matchQ matchT lineKeyValue_def valueQ valueT)
  have once: "lineStep V s (key @ CHR ''='' # t) =
          (if isNaN (parseFloat u)
           then (fst s, snd s @ [nonNumericWarning (toLowerCase key) (JString u)])
           else (setLineParam (toLowerCase key) (parseFloat u) (fst s), snd s))"
    if "V t = Some u" for V s
    using that
    by (simp add: lineStep_def trimT matchT lineKeyValue_def Let_def valueT resolve_own
          parseFloatValue_def)
  have run: "findLine_run content =
          foldl (lineStep (parseVariables (split_lines content)))
            (if isNaN (parseFloat u)
             then (fst (foldl (lineStep (parseVariables (split_lines content)))
                          (initialParams, []) w1),
                   snd (foldl (lineStep (parseVariables (split_lines content)))
                          (initialParams, []) w1)
                   @ [nonNumericWarning (toLowerCase key) (JString u)])
             else (setLineParam (toLowerCase key) (parseFloat u)
                     (fst (foldl (lineStep (parseVariables (split_lines content)))
                             (initialParams, []) w1)),
                   snd (foldl (lineStep (parseVariables (split_lines content)))
                          (initialParams, []) w1)))
            w2"
    if window: "lineWindow (split_lines content) = w1 @ l # w2"
      and l: "l = key @ CHR ''='' # ?q \<or> l = key @ CHR ''='' # t"
      and table: "parseVariables (split_lines content) t = Some u"
  proof -
    let ?V = "parseVariables (split_lines content)"
    let ?s1 = "foldl (lineStep ?V) (initialParams, []) w1"
    from l same [of ?V ?s1] have "lineStep ?V ?s1 l = lineStep ?V ?s1 (key @ CHR ''='' # t)"
      by auto
    with once [of ?V ?s1] table show ?thesis
      by (simp add: findLine_run_foldl window)
  qed
  show ?thesis
  proof (intro conjI impI)
    show "lineStep variables st (key @ ''=\"'' @ t @ ''\"'') = lineStep variables st (key @ ''='' @ t)"
      using same [of variables st] by simp
  next
    assume "variables t = Some u"
    then show "lineStep variables st (key @ ''='' @ t) =
          (if isNaN (parseFloat u)
           then (fst st, snd st @ [nonNumericWarning (toLowerCase key) (JString u)])
           else (setLineParam (toLowerCase key) (parseFloat u) (fst st), snd st))"
      using once [of variables st] by simp
  next
    assume "lineWindow (split_lines content) = w1 @ l # w2 \<and>
       (l = key @ ''=\"'' @ t @ ''\"'' \<or> l = key @ ''='' @ t) \<and>
       parseVariables (split_lines content) t = Some u"
    then show "findLine_run content =
          foldl (lineStep (parseVariables (split_lines content)))
            (if isNaN (parseFloat u)
             then (fst (foldl (lineStep (parseVariables (split_lines content)))
                          (initialParams, []) w1),
                   snd (foldl (lineStep (parseVariables (split_lines content)))
                          (initialParams, []) w1)
                   @ [nonNumericWarning (toLowerCase key) (JString u)])
             else (setLineParam (toLowerCase key) (parseFloat u)
                     (fst (foldl (lineStep (parseVariables (split_lines content)))
                             (initialParams, []) w1)),
                   snd (foldl (lineStep (parseVariables (split_lines content)))
                          (initialParams, []) w1)))
            w2"
      by (intro run) simp_all
  qed
qed

theorem findLine_strips_quotes_then_substitutes_once_witness:
  \<open>lineStep [''FOO'' \<mapsto> ''BAR'', ''BAR'' \<mapsto> ''12.5''] (initialParams, []) ''X="BAR"''
     = (\<lparr>line_x = Some (Finite (25 / 2)), line_y = None, line_z = None\<rparr>, [])
   \<and> findLine_run ''[001\<newline>FOO="BAR"\<newline>BAR="12.5"\<newline>\<newline>$E\<newline>X="FOO"\<newline>Y=1\<newline>Z=2''
     = (\<lparr>line_x = None, line_y = Some (Finite 1), line_z = Some (Finite 2)\<rparr>,
        [(''Non-numeric value for X:'', JString ''BAR'')])\<close>
proof -
  let ?V = "[''FOO'' \<mapsto> ''BAR'', ''BAR'' \<mapsto> ''12.5'']"
  let ?doc = \<open>''[001\<newline>FOO="BAR"\<newline>BAR="12.5"\<newline>\<newline>$E\<newline>X="FOO"\<newline>Y=1\<newline>Z=2''\<close>
  have key: "''X'' \<noteq> []" "list_all isWordChar ''X''"
    by code_simp+
  have foo: "''FOO'' \<noteq> []" "\<not> isWhiteSpace (hd ''FOO'')" "\<not> isWhiteSpace (last ''FOO'')"
    "\<not> list_ex isLineTerminator ''FOO''" "\<not> isQuote (hd ''FOO'')"
    by code_simp+
  have bar: "''BAR'' \<noteq> []" "\<not> isWhiteSpace (hd ''BAR'')" "\<not> isWhiteSpace (last ''BAR'')"
    "\<not> list_ex isLineTerminator ''BAR''" "\<not> isQuote (hd ''BAR'')"
    by code_simp+
  have nan: "isNaN (parseFloat ''BAR'')" and num: "\<not> isNaN (parseFloat ''12.5'')"
    by code_simp+
  have set: "setLineParam (toLowerCase ''X'') (parseFloat ''12.5'') (fst (initialParams, []))
      = \<lparr>line_x = Some (Finite (25 / 2)), line_y = None, line_z = None\<rparr>"
    by code_simp
  have "?V ''BAR'' = Some ''12.5''"
    by simp
  with findLine_strips_quotes_then_substitutes_once
         [OF key bar, of ?V "(initialParams, [])" "''12.5''"] num set
  have one: \<open>lineStep ?V (initialParams, []) ''X="BAR"''
      = (\<lparr>line_x = Some (Finite (25 / 2)), line_y = None, line_z = None\<rparr>, [])\<close>
    by simp
  have window: \<open>lineWindow (split_lines ?doc) = [] @ ''X="FOO"'' # [''Y=1'', ''Z=2'']\<close>
    by code_simp
  have line: \<open>''X="FOO"'' = ''X'' @ ''="'' @ ''FOO'' @ ''"'' \<or> ''X="FOO"'' = ''X'' @ ''='' @ ''FOO''\<close>
    by simp
  have table: "parseVariables (split_lines ?doc) ''FOO'' = Some ''BAR''"
    by code_simp
  have rest: \<open>foldl (lineStep (parseVariables (split_lines ?doc)))
      (fst (foldl (lineStep (parseVariables (split_lines ?doc))) (initialParams, []) []),
       snd (foldl (lineStep (parseVariables (split_lines ?doc))) (initialParams, []) [])
       @ [nonNumericWarning (toLowerCase ''X'') (JString ''BAR'')])
      [''Y=1'', ''Z=2'']
     = (\<lparr>line_x = None, line_y = Some (Finite 1), line_z = Some (Finite 2)\<rparr>,
        [(''Non-numeric value for X:'', JString ''BAR'')])\<close>
    by code_simp
  from findLine_strips_quotes_then_substitutes_once
         [OF key foo, of _ _ "''BAR''" ?doc "[]" \<open>''X="FOO"''\<close> "[''Y=1'', ''Z=2'']"]
    window line table nan
  have \<open>findLine_run ?doc =
     foldl (lineStep (parseVariables (split_lines ?doc)))
      (fst (foldl (lineStep (parseVariables (split_lines ?doc))) (initialParams, []) []),
       snd (foldl (lineStep (parseVariables (split_lines ?doc))) (initialParams, []) [])
       @ [nonNumericWarning (toLowerCase ''X'') (JString ''BAR'')])
      [''Y=1'', ''Z=2'']\<close>
    by simp
  with rest have two: \<open>findLine_run ?doc
     = (\<lparr>line_x = None, line_y = Some (Finite 1), line_z = Some (Finite 2)\<rparr>,
        [(''Non-numeric value for X:'', JString ''BAR'')])\<close>
    by (simp only:)
  from one two show ?thesis by (simp only: simp_thms)
qed

text \<open>
  C10, as stated, fails. The claim: once inside the \<^verbatim>\<open>[001\<close> section, any later line
  beginning with \<^verbatim>\<open>[\<close>, a second \<^verbatim>\<open>[001\<close> header included, ends the scan, so that the
  assignments of a later \<^verbatim>\<open>[001\<close> section never reach the table. The test for the header
  comes first in the loop and continues: in the document below the second header does not
  end the scan, and \<^verbatim>\<open>B\<close>, assigned after it, is in the table.
\<close>

theorem parseVariables_second_header_continues:
  \<open>parseVariables (split_lines ''[001\<newline>A="1"\<newline>[001\<newline>B="2"'') ''B'' = Some ''2''\<close>
  by code_simp

text \<open>
  C10, amended. Once a \<^verbatim>\<open>[001\<close> header has been read, the first later line that is blank
  or begins with \<^verbatim>\<open>[\<close>, \<^verbatim>\<open><\<close> or \<^verbatim>\<open>$\<close>, other than a line beginning with \<^verbatim>\<open>[001\<close>,
  ends the scan: no line after it contributes to the table, a later \<^verbatim>\<open>[001\<close> section
  included. A line beginning with \<^verbatim>\<open>[001\<close> that comes after the first header is skipped
  and the scan goes on as if the line were not there.
\<close>

theorem parseVariables_ends_at_first_boundary:
  "list_ex (\<lambda>l. startsWith (trim l) ''[001'') pre \<Longrightarrow>
   (sectionEnd (trim t) \<and> \<not> startsWith (trim t) ''[001'' \<longrightarrow>
      parseVariables (pre @ t # rest) = parseVariables pre)
   \<and> (startsWith (trim t) ''[001'' \<longrightarrow>
      parseVariables (pre @ t # rest) = parseVariables (pre @ rest))"
  by (simp add: parseVariables_as_list parseVariables_list_after_end
        parseVariables_list_skip_header)

theorem parseVariables_ends_at_first_boundary_witness:
  \<open>parseVariables [''[001'', ''A="1"'', ''[002'', ''[001'', ''B="2"'']
     = parseVariables [''[001'', ''A="1"'']
   \<and> parseVariables [''[001'', ''A="1"'', ''[001'', ''B="2"'']
     = parseVariables [''[001'', ''A="1"'', ''B="2"'']\<close>
proof -
  have header: \<open>list_ex (\<lambda>l. startsWith (trim l) ''[001'') [''[001'', ''A="1"'']\<close>
    by code_simp
  have boundary: "sectionEnd (trim ''[002'') \<and> \<not> startsWith (trim ''[002'') ''[001''"
    by code_simp
  have second: "startsWith (trim ''[001'') ''[001''"
    by code_simp
  from parseVariables_ends_at_first_boundary [OF header, of "''[002''" \<open>[''[001'', ''B="2"'']\<close>]
    boundary
  have one: \<open>parseVariables ([''[001'', ''A="1"''] @ ''[002'' # [''[001'', ''B="2"''])
               = parseVariables [''[001'', ''A="1"'']\<close>
    by blast
  from parseVariables_ends_at_first_boundary [OF header, of "''[001''" \<open>[''B="2"'']\<close>] second
  have two: \<open>parseVariables ([''[001'', ''A="1"''] @ ''[001'' # [''B="2"''])
               = parseVariables ([''[001'', ''A="1"''] @ [''B="2"''])\<close>
    by blast
  from one two show ?thesis by simp
qed

end
